theory Spec2Isabelle
  imports Complex_Main "HOL-Library.Monad_Syntax" "HOL-Library.Sublist" "HOL-Library.Log_Nat"
begin

text \<open>
  A shallow embedding of the post-processing core of \<^verbatim>\<open>src/schema-generator.tsx\<close>: the
  retry controller, the word-count check, the internal link engine, the video guardian,
  the content normalizer and the JSON extractor. Each function of the source is a
  function of the same name here; what it throws is a value (\<open>Inl\<close>), what it logs is
  left out, and each regular expression is the function that matches it. The first
  part holds the definitions, the second part the properties.
\<close>

section \<open>JavaScript strings\<close>

text \<open>
  A JavaScript string is modelled as a \<^typ>\<open>string\<close>: a list of code units, here the
  code units below 256, read as Latin-1. The character classes and case mappings below
  are those of ECMAScript on that range.
\<close>

text \<open>The class \<^verbatim>\<open>\s\<close>: TAB, LF, VT, FF, CR, space and the no-break space.\<close>

definition js_space :: "char \<Rightarrow> bool" where
  "js_space c = (c \<in> set [CHR 0x09, CHR 0x0A, CHR 0x0B, CHR 0x0C, CHR 0x0D, CHR 0x20, CHR 0xA0])"

text \<open>The class \<^verbatim>\<open>\d\<close>.\<close>

definition js_digit :: "char \<Rightarrow> bool" where
  "js_digit c = (c \<in> set ''0123456789'')"

text \<open>The class \<^verbatim>\<open>\w\<close>: ASCII letters, digits and the underscore.\<close>

definition js_word_char :: "char \<Rightarrow> bool" where
  "js_word_char c = (c \<in> set ''abcdefghijklmnopqrstuvwxyzABCDEFGHIJKLMNOPQRSTUVWXYZ0123456789_'')"

text \<open>\<^verbatim>\<open>String.prototype.toLowerCase\<close> and \<^verbatim>\<open>toUpperCase\<close>, one code unit at a time.
  In Latin-1 the capital letters are A to Z and 0xC0 to 0xDE without the multiplication sign
  0xD7; the small letters 0xDF (sharp s), 0xFF and 0xB5 have no capital in the range and
  stay as they are when upper-cased within it.\<close>

definition lower_char :: "char \<Rightarrow> char" where
  "lower_char c = (let n = (of_char c :: int) in
     if (65 \<le> n \<and> n \<le> 90) \<or> (192 \<le> n \<and> n \<le> 222 \<and> n \<noteq> 215)
     then char_of (n + 32) else c)"

definition upper_char :: "char \<Rightarrow> char" where
  "upper_char c = (let n = (of_char c :: int) in
     if (97 \<le> n \<and> n \<le> 122) \<or> (224 \<le> n \<and> n \<le> 254 \<and> n \<noteq> 247)
     then char_of (n - 32) else c)"

definition toLowerCase :: "string \<Rightarrow> string" where
  "toLowerCase s = map lower_char s"

text \<open>\<^verbatim>\<open>s.startsWith(p)\<close>, written out so that it evaluates.\<close>

fun starts_with :: "string \<Rightarrow> string \<Rightarrow> bool" where
  "starts_with s [] = True"
| "starts_with [] (p # ps) = False"
| "starts_with (c # cs) (p # ps) = (if c = p then starts_with cs ps else False)"

text \<open>\<^verbatim>\<open>hay.includes(needle)\<close>.\<close>

fun js_includes :: "string \<Rightarrow> string \<Rightarrow> bool" where
  "js_includes [] needle = (needle = [])"
| "js_includes (c # cs) needle = (starts_with (c # cs) needle \<or> js_includes cs needle)"

text \<open>\<^verbatim>\<open>hay.indexOf(needle)\<close>; \<open>None\<close> stands for \<^verbatim>\<open>-1\<close>.\<close>

fun indexOf :: "string \<Rightarrow> string \<Rightarrow> nat option" where
  "indexOf [] needle = (if needle = [] then Some 0 else None)"
| "indexOf (c # cs) needle =
     (if starts_with (c # cs) needle then Some 0
      else map_option Suc (indexOf cs needle))"

text \<open>\<^verbatim>\<open>s.trim()\<close>: white space is removed at both ends.\<close>

definition trim :: "string \<Rightarrow> string" where
  "trim s = rev (dropWhile js_space (rev (dropWhile js_space s)))"

text \<open>\<^verbatim>\<open>s.split(/\s+/)\<close>: the pieces between maximal runs of white space. A run at the
  start or at the end of the string gives an empty first or last piece, and the empty
  string gives one empty piece.\<close>

function split_ws_acc :: "string \<Rightarrow> string \<Rightarrow> string list" where
  "split_ws_acc acc [] = [rev acc]"
| "split_ws_acc acc (c # cs) =
     (if js_space c then rev acc # split_ws_acc [] (dropWhile js_space cs)
      else split_ws_acc (c # acc) cs)"
  by pat_completeness auto
termination
  by (relation "measure (\<lambda>(acc, s). length s)") (auto simp: length_dropWhile_le less_Suc_eq_le)

definition split_ws :: "string \<Rightarrow> string list" where
  "split_ws s = split_ws_acc [] s"

text \<open>\<^verbatim>\<open>s.split(sep)\<close> for a non-empty separator string, and \<^verbatim>\<open>parts.join(sep)\<close>.\<close>

fun split_on_acc :: "string \<Rightarrow> string \<Rightarrow> string \<Rightarrow> string list" where
  "split_on_acc sep acc [] = [rev acc]"
| "split_on_acc sep acc (c # cs) =
     (if starts_with (c # cs) sep
      then rev acc # split_on_acc sep [] (drop (length sep - 1) cs)
      else split_on_acc sep (c # acc) cs)"

definition split_on :: "string \<Rightarrow> string \<Rightarrow> string list" where
  "split_on sep s = split_on_acc sep [] s"

fun join :: "string \<Rightarrow> string list \<Rightarrow> string" where
  "join sep [] = []"
| "join sep [x] = x"
| "join sep (x # y # ys) = x @ sep @ join sep (y # ys)"

text \<open>A template literal prints a number in decimal.\<close>

fun digits_of :: "nat \<Rightarrow> string" where
  "digits_of n =
     (if n < 10 then [''0123456789'' ! n]
      else digits_of (n div 10) @ [''0123456789'' ! (n mod 10)])"

definition show_int :: "int \<Rightarrow> string" where
  "show_int i = (if i < 0 then CHR ''-'' # digits_of (nat (- i)) else digits_of (nat i))"

section \<open>JavaScript numbers\<close>

text \<open>
  A JavaScript number is an IEEE 754 double. A finite double is modelled as the rational
  number it stands for, and an arithmetic operation of the source as the exact operation
  followed by \<open>fl\<close>, which rounds to the nearest double, a tie to the even significand:
  the significand has 53 bits, and the exponent of its last bit is not below -1074. The
  rounding is that of the standard for results below \<open>2 ^ 1024\<close> in absolute value, where
  the operation does not overflow.
\<close>

definition pow2 :: "int \<Rightarrow> rat" where
  "pow2 e = (if e \<ge> 0 then 2 ^ nat e else 1 / 2 ^ nat (- e))"

definition round_half_even :: "rat \<Rightarrow> int" where
  "round_half_even x =
     (let n = \<lfloor>x\<rfloor>; r = x - of_int n in
      if r < 1 / 2 then n else if r > 1 / 2 then n + 1 else if even n then n else n + 1)"

definition fl :: "rat \<Rightarrow> rat" where
  "fl x =
     (if x = 0 then 0
      else
        let a = \<bar>x\<bar>;
            k = bitlen (fst (quotient_of a)) - bitlen (snd (quotient_of a));
            e = max ((if pow2 k \<le> a then k else k - 1) - 52) (- 1074)
        in sgn x * of_int (round_half_even (a / pow2 e)) * pow2 e)"

section \<open>Retry controller: \<^verbatim>\<open>callAiWithRetry\<close>\<close>

text \<open>
  The error object an operation throws: the fields the controller reads. A missing
  \<^verbatim>\<open>message\<close> reads as the empty string (\<^verbatim>\<open>error.message || ''\<close>), a missing or
  zero \<^verbatim>\<open>status\<close> is falsy.
\<close>

record js_error =
  message :: string
  status :: "int option"

text \<open>What \<^verbatim>\<open>callAiWithRetry\<close> throws: the operation's own error object, thrown again
  (\<^verbatim>\<open>throw error\<close>), or a new \<^verbatim>\<open>Error\<close> with a message.\<close>

datatype thrown = Rethrown js_error | NewError string

text \<open>\<^verbatim>\<open>errorMessage.match(/\[(\d{3})[^\]]*\]/)\<close>: the leftmost \<^verbatim>\<open>[\<close> that is followed by
  three digits and, after any characters other than \<^verbatim>\<open>]\<close>, by a \<^verbatim>\<open>]\<close>. The result is
  group 1, the three digits.\<close>

fun status_at :: "string \<Rightarrow> string option" where
  "status_at (b # d1 # d2 # d3 # rest) =
     (if b = CHR ''['' \<and> js_digit d1 \<and> js_digit d2 \<and> js_digit d3
         \<and> dropWhile (\<lambda>c. c \<noteq> CHR '']'') rest \<noteq> []
      then Some [d1, d2, d3] else None)"
| "status_at _ = None"

fun statusMatch :: "string \<Rightarrow> string option" where
  "statusMatch [] = None"
| "statusMatch (c # cs) =
     (case status_at (c # cs) of Some g \<Rightarrow> Some g | None \<Rightarrow> statusMatch cs)"

text \<open>\<^verbatim>\<open>parseInt(digits, 10)\<close> on a string of decimal digits.\<close>

definition digit_val :: "char \<Rightarrow> int" where
  "digit_val c = (case indexOf ''0123456789'' [c] of Some k \<Rightarrow> int k | None \<Rightarrow> 0)"

definition parseInt_digits :: "string \<Rightarrow> int" where
  "parseInt_digits ds = foldl (\<lambda>acc c. 10 * acc + digit_val c) 0 ds"

text \<open>\<^verbatim>\<open>error.status || (statusMatch ? parseInt(statusMatch[1], 10) : null)\<close>.\<close>

definition statusCode :: "js_error \<Rightarrow> int option" where
  "statusCode error =
     (case status error of
        Some n \<Rightarrow> if n \<noteq> 0 then Some n
                  else map_option parseInt_digits (statusMatch (toLowerCase (message error)))
      | None \<Rightarrow> map_option parseInt_digits (statusMatch (toLowerCase (message error))))"

definition isNonRetriableClientError :: "js_error \<Rightarrow> bool" where
  "isNonRetriableClientError error =
     (case statusCode error of
        None \<Rightarrow> False
      | Some n \<Rightarrow> n \<noteq> 0 \<and> n \<ge> 400 \<and> n < 500 \<and> n \<noteq> 429)"

definition isContextLengthError :: "js_error \<Rightarrow> bool" where
  "isContextLengthError error =
     (js_includes (toLowerCase (message error)) ''context length''
      \<or> js_includes (toLowerCase (message error)) ''token limit'')"

definition isInvalidApiKeyError :: "js_error \<Rightarrow> bool" where
  "isInvalidApiKeyError error = js_includes (toLowerCase (message error)) ''api key not valid''"

definition failsFast :: "js_error \<Rightarrow> bool" where
  "failsFast error =
     (isNonRetriableClientError error \<or> isContextLengthError error \<or> isInvalidApiKeyError error)"

text \<open>
  The operation \<^verbatim>\<open>apiCall\<close> has effects, so its outcome may differ from one invocation to
  the next: it is a function of the number of the invocation, counted from 0, giving the
  error thrown (\<open>Inl\<close>) or the value returned (\<open>Inr\<close>). The loop returns what
  \<^verbatim>\<open>callAiWithRetry\<close> throws or returns together with the number of times the operation
  was invoked. The wait between two attempts (the back-off delay, which reads the clock
  and a random number) changes neither and is left out.
\<close>

function callAiWithRetry_from ::
  "(nat \<Rightarrow> js_error + 'a) \<Rightarrow> int \<Rightarrow> nat \<Rightarrow> (thrown + 'a) \<times> nat" where
  "callAiWithRetry_from apiCall maxRetries attempt =
     (if int attempt < maxRetries then
        (case apiCall attempt of
           Inr v \<Rightarrow> (Inr v, Suc attempt)
         | Inl error \<Rightarrow>
             if failsFast error then (Inl (Rethrown error), Suc attempt)
             else if int attempt = maxRetries - 1 then (Inl (Rethrown error), Suc attempt)
             else callAiWithRetry_from apiCall maxRetries (Suc attempt))
      else (Inl (NewError ''AI call failed after all retries.''), attempt))"
  by pat_completeness auto
termination
  by (relation "measure (\<lambda>(apiCall, maxRetries, attempt). nat (maxRetries - int attempt))") auto

definition callAiWithRetry :: "(nat \<Rightarrow> js_error + 'a) \<Rightarrow> int \<Rightarrow> (thrown + 'a) \<times> nat" where
  "callAiWithRetry apiCall maxRetries = callAiWithRetry_from apiCall maxRetries 0"

text \<open>An operation that answers every invocation with HTTP 503.\<close>

definition unavailable :: js_error where
  "unavailable = \<lparr>message = ''[503 Service Unavailable] upstream overloaded'', status = Some 503\<rparr>"

definition always_unavailable :: "nat \<Rightarrow> js_error + unit" where
  "always_unavailable n = Inl unavailable"

section \<open>Quality gate: \<^verbatim>\<open>enforceWordCount\<close>\<close>

text \<open>\<^verbatim>\<open>content.replace(/<[^>]*>/g, ' ')\<close>: every \<^verbatim>\<open><\<close> that has a \<^verbatim>\<open>>\<close> somewhere after it
  is replaced, up to the first such \<^verbatim>\<open>>\<close>, by one space.\<close>

function strip_tags :: "string \<Rightarrow> string" where
  "strip_tags [] = []"
| "strip_tags (c # cs) =
     (if c = CHR ''<'' \<and> CHR ''>'' \<in> set cs
      then CHR '' '' # strip_tags (tl (dropWhile (\<lambda>x. x \<noteq> CHR ''>'') cs))
      else c # strip_tags cs)"
  by pat_completeness auto
termination
proof (relation "measure length")
  fix c :: char and cs :: string
  have "length (tl (dropWhile (\<lambda>x. x \<noteq> CHR ''>'') cs)) \<le> length cs"
    using length_dropWhile_le [of "\<lambda>x. x \<noteq> CHR ''>''" cs] by simp
  then show "(tl (dropWhile (\<lambda>x. x \<noteq> CHR ''>'') cs), c # cs) \<in> measure length"
    by simp
qed simp_all

text \<open>\<^verbatim>\<open>.replace(/\s+/g, ' ')\<close>: every maximal run of white space becomes one space.\<close>

function collapse_ws :: "string \<Rightarrow> string" where
  "collapse_ws [] = []"
| "collapse_ws (c # cs) =
     (if js_space c then CHR '' '' # collapse_ws (dropWhile js_space cs)
      else c # collapse_ws cs)"
  by pat_completeness auto
termination
  by (relation "measure length") (auto simp: length_dropWhile_le less_Suc_eq_le)

definition textOnly :: "string \<Rightarrow> string" where
  "textOnly content = trim (collapse_ws (strip_tags content))"

definition countWords :: "string \<Rightarrow> nat" where
  "countWords content = length (filter (\<lambda>w. length w > 0) (split_ws (textOnly content)))"

text \<open>The class \<^verbatim>\<open>ContentTooShortError\<close>: the message of the \<^verbatim>\<open>Error\<close> it extends, the
  content and the word count it carries.\<close>

record ContentTooShortError =
  errorMessage :: string
  errorContent :: string
  errorWordCount :: nat

text \<open>\<^verbatim>\<open>enforceWordCount\<close> throws (\<open>Inl\<close>) or returns the word count; beside the count the
  model returns what \<^verbatim>\<open>console.warn\<close> was told, the number of words over the maximum,
  when the warning was logged.\<close>

definition enforceWordCount ::
  "string \<Rightarrow> int \<Rightarrow> int \<Rightarrow> ContentTooShortError + (nat \<times> int option)" where
  "enforceWordCount content minWords maxWords =
     (let wordCount = countWords content in
      if int wordCount < minWords then
        Inl \<lparr>errorMessage = ''CONTENT TOO SHORT: '' @ show_int (int wordCount)
                 @ '' words (minimum '' @ show_int minWords @ '' required)'',
             errorContent = content,
             errorWordCount = wordCount\<rparr>
      else if int wordCount > maxWords then Inr (wordCount, Some (int wordCount - maxWords))
      else Inr (wordCount, None))"

text \<open>A content of five hundred one-word paragraphs.\<close>

definition five_hundred_words :: string where
  "five_hundred_words = concat (replicate 500 ''<p>w</p>'')"

section \<open>Regular expressions, as the functions they compute\<close>

text \<open>
  A regular expression of the source is modelled by the function that matches it at the
  start of a string: the result is the number of characters matched together with the
  capture groups, in their order. \<^verbatim>\<open>match[k]\<close> is \<open>capture groups k\<close>, which is
  \<^verbatim>\<open>undefined\<close> (\<open>None\<close>) when the expression has no group \<open>k\<close>.
\<close>

type_synonym matcher = "string \<Rightarrow> (nat \<times> string list) option"

definition capture :: "string list \<Rightarrow> nat \<Rightarrow> string option" where
  "capture groups k = (if 1 \<le> k \<and> k \<le> length groups then Some (groups ! (k - 1)) else None)"

text \<open>A literal: the rest of the string after it.\<close>

definition lit :: "string \<Rightarrow> string \<Rightarrow> string option" where
  "lit p s = (if starts_with s p then Some (drop (length p) s) else None)"

text \<open>A character class repeated once or more, where what follows the repetition starts
  with a character outside the class, so that only the longest run can match: the run and
  the rest.\<close>

definition many1 :: "(char \<Rightarrow> bool) \<Rightarrow> string \<Rightarrow> (string \<times> string) option" where
  "many1 P s = (if takeWhile P s = [] then None else Some (takeWhile P s, dropWhile P s))"

text \<open>Alternatives tried in order, the first success wins (backtracking).\<close>

fun first_some :: "('a \<Rightarrow> 'b option) \<Rightarrow> 'a list \<Rightarrow> 'b option" where
  "first_some f [] = None"
| "first_some f (x # xs) = (case f x of Some y \<Rightarrow> Some y | None \<Rightarrow> first_some f xs)"

fun countdown :: "nat \<Rightarrow> nat list" where
  "countdown 0 = []"
| "countdown (Suc n) = Suc n # countdown n"

text \<open>
  \<^verbatim>\<open>s.replace(re, callback)\<close> with a global expression: the string is scanned from the
  left, the leftmost match is replaced by what the callback returns for it and the scan
  goes on behind the match. None of the expressions below matches the empty string.
\<close>

function replace_all :: "matcher \<Rightarrow> (string \<Rightarrow> string list \<Rightarrow> string) \<Rightarrow> string \<Rightarrow> string" where
  "replace_all m f [] = []"
| "replace_all m f (c # cs) =
     (case m (c # cs) of
        None \<Rightarrow> c # replace_all m f cs
      | Some (n, groups) \<Rightarrow> f (take n (c # cs)) groups @ replace_all m f (drop (n - 1) cs))"
  by pat_completeness auto
termination
  by (relation "measure (\<lambda>(m, f, s). length s)") auto

text \<open>The same when the callback may throw: the first throw ends the replacement.\<close>

function replace_all_throwing ::
  "matcher \<Rightarrow> (string \<Rightarrow> string list \<Rightarrow> 'e + string) \<Rightarrow> string \<Rightarrow> 'e + string" where
  "replace_all_throwing m f [] = Inr []"
| "replace_all_throwing m f (c # cs) =
     (case m (c # cs) of
        None \<Rightarrow>
          (case replace_all_throwing m f cs of Inl e \<Rightarrow> Inl e | Inr r \<Rightarrow> Inr (c # r))
      | Some (n, groups) \<Rightarrow>
          (case f (take n (c # cs)) groups of
             Inl e \<Rightarrow> Inl e
           | Inr new \<Rightarrow>
               (case replace_all_throwing m f (drop (n - 1) cs) of
                  Inl e \<Rightarrow> Inl e
                | Inr r \<Rightarrow> Inr (new @ r))))"
  by pat_completeness auto
termination
  by (relation "measure (\<lambda>(m, f, s). length s)") auto

text \<open>\<^verbatim>\<open>[...s.matchAll(re)]\<close>: the matches from left to right, each with its index, its text
  and its groups.\<close>

function match_all :: "matcher \<Rightarrow> nat \<Rightarrow> string \<Rightarrow> (nat \<times> string \<times> string list) list" where
  "match_all m i [] = []"
| "match_all m i (c # cs) =
     (case m (c # cs) of
        None \<Rightarrow> match_all m (Suc i) cs
      | Some (n, groups) \<Rightarrow>
          (i, take n (c # cs), groups) # match_all m (i + max 1 n) (drop (n - 1) cs))"
  by pat_completeness auto
termination
  by (relation "measure (\<lambda>(m, i, s). length s)") auto

section \<open>Internal link engine\<close>

text \<open>A page of the catalogue: \<^verbatim>\<open>id\<close> (the full URL), \<^verbatim>\<open>title\<close> and \<^verbatim>\<open>slug\<close>. A missing
  field reads as the empty string, which is falsy as \<^verbatim>\<open>undefined\<close> is.\<close>

record page =
  page_id :: string
  page_title :: string
  page_slug :: string

text \<open>\<^verbatim>\<open>/\[INTERNAL_LINK\s+slug="([^"]+)"\s+text="([^"]+)"\]/\<close>, the expression of
  \<^verbatim>\<open>validateAndRepairInternalLinks\<close> and of \<^verbatim>\<open>processInternalLinks\<close>.\<close>

definition placeholder_at :: matcher where
  \<open>placeholder_at s = do {
     r1 \<leftarrow> lit ''[INTERNAL_LINK'' s;
     (ws1, r2) \<leftarrow> many1 js_space r1;
     r3 \<leftarrow> lit ''slug="'' r2;
     (slug, r4) \<leftarrow> many1 (\<lambda>c. c \<noteq> CHR 0x22) r3;
     r5 \<leftarrow> lit ''"'' r4;
     (ws2, r6) \<leftarrow> many1 js_space r5;
     r7 \<leftarrow> lit ''text="'' r6;
     (text, r8) \<leftarrow> many1 (\<lambda>c. c \<noteq> CHR 0x22) r7;
     r9 \<leftarrow> lit ''"]'' r8;
     Some (length s - length r9, [slug, text])
   }\<close>

text \<open>The two attributes of that expression, each with what stands behind it: the value of
  the attribute and the rest of the string.\<close>

definition slug_attr :: "string \<Rightarrow> (string \<times> string) option" where
  \<open>slug_attr r = do {
     (slug, r4) \<leftarrow> many1 (\<lambda>c. c \<noteq> CHR 0x22) r;
     r5 \<leftarrow> lit ''"'' r4;
     (ws2, r6) \<leftarrow> many1 js_space r5;
     r7 \<leftarrow> lit ''text="'' r6;
     Some (slug, r7)
   }\<close>

definition text_attr :: "string \<Rightarrow> (string \<times> string) option" where
  \<open>text_attr r = do {
     (text, r8) \<leftarrow> many1 (\<lambda>c. c \<noteq> CHR 0x22) r;
     r9 \<leftarrow> lit ''"]'' r8;
     Some (text, r9)
   }\<close>

text \<open>\<^verbatim>\<open>/\[INTERNAL_LINK\s+slug="[^"]+"\s+text="[^"]+"\]/\<close>, the expression of
  \<^verbatim>\<open>enforceInternalLinkQuota\<close>: the same text is matched, and there is no capture group.\<close>

definition quota_placeholder_at :: matcher where
  "quota_placeholder_at s = map_option (\<lambda>(n, groups). (n, [])) (placeholder_at s)"

text \<open>\<^verbatim>\<open>text.replace(/"/g, '&quot;')\<close>.\<close>

definition escape_quotes :: "string \<Rightarrow> string" where
  \<open>escape_quotes t = concat (map (\<lambda>c. if c = CHR 0x22 then ''&quot;'' else [c]) t)\<close>

definition make_placeholder :: "string \<Rightarrow> string \<Rightarrow> string" where
  \<open>make_placeholder slug text = ''[INTERNAL_LINK slug="'' @ slug @ ''" text="'' @ text @ ''"]''\<close>

subsection \<open>\<^verbatim>\<open>validateAndRepairInternalLinks\<close>\<close>

text \<open>The meaningful words: \<^verbatim>\<open>s.split(/\s+/).filter(w => w.length > 2)\<close>.\<close>

definition meaningful_words :: "string \<Rightarrow> string list" where
  "meaningful_words s = filter (\<lambda>w. length w > 2) (split_ws s)"

text \<open>
  The score of one page for an anchor text; \<open>None\<close> where the loop body runs into
  \<^verbatim>\<open>continue\<close>. The sums of 100, 60 and 50 are exact; the division, the multiplication, the
  addition and the halving of the overlap score and the last addition each round to a
  double. A \<^verbatim>\<open>Set\<close> is the list of its distinct elements.
\<close>

definition match_percentage :: "nat \<Rightarrow> nat \<Rightarrow> rat" where
  "match_percentage intersectionSize setSize = fl (fl (of_nat intersectionSize / of_nat setSize) * 100)"

definition page_score :: "string \<Rightarrow> string list \<Rightarrow> page \<Rightarrow> rat option" where
  "page_score anchorTextLower anchorWordSet p =
     (if page_slug p = [] \<or> page_title p = [] then None
      else
        let titleLower = toLowerCase (page_title p);
            exact = (if titleLower = anchorTextLower then 100 else 0);
            anchorInTitle = (if js_includes titleLower anchorTextLower then 60 else 0);
            titleInAnchor = (if js_includes anchorTextLower titleLower then 50 else 0);
            titleWords = meaningful_words titleLower
        in if titleWords = [] then None
           else
             let titleWordSet = remdups titleWords;
                 intersection = filter (\<lambda>w. w \<in> set titleWordSet) anchorWordSet
             in if length intersection > 0 then
                  let anchorMatchPercentage =
                        match_percentage (length intersection) (length anchorWordSet);
                      titleMatchPercentage =
                        match_percentage (length intersection) (length titleWordSet);
                      overlapScore = fl (fl (anchorMatchPercentage + titleMatchPercentage) / 2)
                  in Some (fl (exact + anchorInTitle + titleInAnchor + overlapScore))
                else Some (exact + anchorInTitle + titleInAnchor))"

text \<open>The loop over the catalogue, with \<^verbatim>\<open>bestMatch\<close> and \<^verbatim>\<open>highestScore\<close> as its state.\<close>

fun best_match :: "string \<Rightarrow> string list \<Rightarrow> page list \<Rightarrow> page option \<times> rat \<Rightarrow> page option \<times> rat" where
  "best_match anchorTextLower anchorWordSet [] st = st"
| "best_match anchorTextLower anchorWordSet (p # ps) (bestMatch, highestScore) =
     (case page_score anchorTextLower anchorWordSet p of
        None \<Rightarrow> best_match anchorTextLower anchorWordSet ps (bestMatch, highestScore)
      | Some currentScore \<Rightarrow>
          if currentScore > highestScore
          then best_match anchorTextLower anchorWordSet ps (Some p, currentScore)
          else best_match anchorTextLower anchorWordSet ps (bestMatch, highestScore))"

definition repair_placeholder :: "page list \<Rightarrow> string \<Rightarrow> string list \<Rightarrow> string" where
  "repair_placeholder availablePages match groups =
     (case (capture groups 1, capture groups 2) of
        (Some slug, Some text) \<Rightarrow>
          if slug \<in> set (map page_slug availablePages) then match
          else
            let anchorTextLower = toLowerCase text;
                anchorWordSet = remdups (meaningful_words anchorTextLower)
            in (case best_match anchorTextLower anchorWordSet availablePages (None, - 1) of
                  (Some bestMatch, highestScore) \<Rightarrow>
                    if highestScore > 50
                    then make_placeholder (page_slug bestMatch) (escape_quotes text)
                    else text
                | (None, highestScore) \<Rightarrow> text)
      | _ \<Rightarrow> match)"

text \<open>The catalogue \<^verbatim>\<open>availablePages\<close> may be \<^verbatim>\<open>null\<close> (\<open>None\<close>); an empty content is falsy.\<close>

definition validateAndRepairInternalLinks :: "string \<Rightarrow> page list option \<Rightarrow> string" where
  "validateAndRepairInternalLinks content availablePages =
     (case availablePages of
        None \<Rightarrow> content
      | Some pages \<Rightarrow>
          if content = [] \<or> pages = [] then content
          else replace_all placeholder_at (repair_placeholder pages) content)"

text \<open>The score that the repair of an anchor text gives a page, and the pages that are
  passed over or score below a limit.\<close>

definition anchor_score :: "string \<Rightarrow> page \<Rightarrow> rat option" where
  "anchor_score text p =
     page_score (toLowerCase text) (remdups (meaningful_words (toLowerCase text))) p"

definition scores_below :: "rat \<Rightarrow> string \<Rightarrow> page \<Rightarrow> bool" where
  "scores_below limit text p = (case anchor_score text p of None \<Rightarrow> True | Some s \<Rightarrow> s < limit)"

subsection \<open>\<^verbatim>\<open>enforceInternalLinkQuota\<close>\<close>

text \<open>\<^verbatim>\<open>a.indexOf(v)\<close> on an array.\<close>

fun array_indexOf :: "'a list \<Rightarrow> 'a \<Rightarrow> nat option" where
  "array_indexOf [] v = None"
| "array_indexOf (x # xs) v = (if x = v then Some 0 else map_option Suc (array_indexOf xs v))"

text \<open>\<^verbatim>\<open>.filter((v, i, a) => a.indexOf(v) === i && v.length > 10)\<close>.\<close>

definition unique_long_terms :: "string list \<Rightarrow> string list" where
  "unique_long_terms a =
     map snd (filter (\<lambda>(i, v). array_indexOf a v = Some i \<and> length v > 10) (enumerate 0 a))"

text \<open>The search terms of a title; \<^verbatim>\<open>.sort((a, b) => b.length - a.length)\<close> is a stable
  sort, the longest term first.\<close>

definition searchTerms :: "string \<Rightarrow> string list" where
  "searchTerms title =
     (let ws = split_on '' '' title in
      sort_key (\<lambda>v. - int (length v))
        (unique_long_terms
           ([title]
            @ (if length ws > 4 then [join '' '' (butlast ws)] else [])
            @ (if length ws > 3 then [join '' '' (tl ws)] else []))))"

text \<open>
  The expression \<^verbatim>\<open>(?<=[>\s\n\t(])(term)(?=[<\s\n\t.,!?)])\<close> with the flags \<^verbatim>\<open>gi\<close>, the
  term escaped by \<^verbatim>\<open>escapeRegExp\<close> so that it stands for itself: the term, letters compared
  without case, with a character of the first class before it and a character of the
  second class behind it.
\<close>

definition look_behind :: "char \<Rightarrow> bool" where
  "look_behind c = (c = CHR ''>'' \<or> js_space c \<or> c = CHR ''('')"

definition look_ahead :: "char \<Rightarrow> bool" where
  "look_ahead c = (c = CHR ''<'' \<or> js_space c \<or> c \<in> set ''.,!?)'')"

fun starts_with_ci :: "string \<Rightarrow> string \<Rightarrow> bool" where
  "starts_with_ci s [] = True"
| "starts_with_ci [] (p # ps) = False"
| "starts_with_ci (c # cs) (p # ps) =
     (if upper_char c = upper_char p then starts_with_ci cs ps else False)"

definition term_at :: "string \<Rightarrow> char \<Rightarrow> string \<Rightarrow> bool" where
  "term_at t prev s =
     (if look_behind prev then
        (if starts_with_ci s t then
           (case drop (length t) s of [] \<Rightarrow> False | c # cs \<Rightarrow> look_ahead c)
         else False)
      else False)"

text \<open>The index of the leftmost match in the string behind the character \<open>prev\<close>.\<close>

fun find_term :: "string \<Rightarrow> char \<Rightarrow> string \<Rightarrow> nat option" where
  "find_term t prev [] = None"
| "find_term t prev (c # cs) =
     (if term_at t prev (c # cs) then Some 0 else map_option Suc (find_term t c cs))"

text \<open>No character stands before index 0, so no match starts there.\<close>

definition search_term :: "string \<Rightarrow> string \<Rightarrow> nat option" where
  "search_term t content =
     (case content of [] \<Rightarrow> None | c # cs \<Rightarrow> map_option Suc (find_term t c cs))"

text \<open>The loop over the search terms of one page: the first term found in the content
  is wrapped, where it is found first, in a new placeholder; \<open>None\<close> when no link was
  placed.\<close>

fun place_link :: "page \<Rightarrow> string list \<Rightarrow> string \<Rightarrow> string option" where
  "place_link p [] newContent = None"
| "place_link p (t # ts) newContent =
     (case search_term t newContent of
        Some i \<Rightarrow>
          Some (take i newContent
                @ make_placeholder (page_slug p) (take (length t) (drop i newContent))
                @ drop (i + length t) newContent)
      | None \<Rightarrow> place_link p ts newContent)"

text \<open>The loop over the candidate pages, with \<^verbatim>\<open>deficit\<close>, \<^verbatim>\<open>newlyLinkedSlugs\<close> and
  \<^verbatim>\<open>newContent\<close> as its state.\<close>

fun quota_loop :: "(page \<times> string list) list \<Rightarrow> int \<Rightarrow> string list \<Rightarrow> string \<Rightarrow> string" where
  "quota_loop [] deficit newlyLinkedSlugs newContent = newContent"
| "quota_loop ((p, ts) # candidates) deficit newlyLinkedSlugs newContent =
     (if deficit \<le> 0 then newContent
      else if page_slug p \<in> set newlyLinkedSlugs
      then quota_loop candidates deficit newlyLinkedSlugs newContent
      else
        (case place_link p ts newContent of
           Some tempContent \<Rightarrow>
             quota_loop candidates (deficit - 1) (page_slug p # newlyLinkedSlugs) tempContent
         | None \<Rightarrow> quota_loop candidates deficit newlyLinkedSlugs newContent))"

definition linkedSlugs :: "string \<Rightarrow> string option list" where
  "linkedSlugs content =
     map (\<lambda>(i, match, groups). capture groups 1) (match_all quota_placeholder_at 0 content)"

definition candidatePages :: "string \<Rightarrow> page list \<Rightarrow> (page \<times> string list) list" where
  "candidatePages content availablePages =
     filter (\<lambda>(p, ts). length ts > 0)
       (map (\<lambda>p. (p, searchTerms (page_title p)))
          (filter (\<lambda>p. page_slug p \<noteq> [] \<and> page_title p \<noteq> []
                        \<and> Some (page_slug p) \<notin> set (linkedSlugs content)
                        \<and> length (split_on '' '' (page_title p)) > 2)
             availablePages))"

definition enforceInternalLinkQuota ::
  "string \<Rightarrow> page list option \<Rightarrow> string \<Rightarrow> int \<Rightarrow> string" where
  "enforceInternalLinkQuota content availablePages primaryKeyword minLinks =
     (case availablePages of
        None \<Rightarrow> content
      | Some pages \<Rightarrow>
          if pages = [] then content
          else
            let existingLinks = match_all quota_placeholder_at 0 content;
                deficit = minLinks - int (length existingLinks)
            in if deficit \<le> 0 then content
               else quota_loop (candidatePages content pages) deficit [] content)"

subsection \<open>\<^verbatim>\<open>processInternalLinks\<close>\<close>

text \<open>\<^verbatim>\<open>new Map(pairs).get(slug)\<close>: of two pages with one slug the later one is stored.\<close>

definition pagesBySlug_get :: "page list \<Rightarrow> string \<Rightarrow> page option" where
  "pagesBySlug_get pages slug = List.find (\<lambda>p. page_slug p = slug) (rev pages)"

text \<open>
  The URL class of the platform is a parameter of the model: \<open>withUtm url\<close> is the result
  of \<^verbatim>\<open>new URL(url)\<close>, the three \<^verbatim>\<open>searchParams.set\<close> calls of the source and
  \<^verbatim>\<open>toString()\<close>, and \<open>None\<close> when \<^verbatim>\<open>new URL\<close> throws its \<^verbatim>\<open>TypeError\<close>.
\<close>

datatype type_error = TypeError

definition resolve_placeholder ::
  "(string \<Rightarrow> string option) \<Rightarrow> page list \<Rightarrow> string \<Rightarrow> string list \<Rightarrow> type_error + string" where
  \<open>resolve_placeholder withUtm availablePages match groups =
     (case (capture groups 1, capture groups 2) of
        (Some slug, Some text) \<Rightarrow>
          (case pagesBySlug_get (filter (\<lambda>p. page_slug p \<noteq> []) availablePages) slug of
             Some p \<Rightarrow>
               if page_id p \<noteq> [] then
                 (case withUtm (page_id p) of
                    None \<Rightarrow> Inl TypeError
                  | Some finalUrl \<Rightarrow>
                      Inr (''<a href="'' @ finalUrl @ ''">'' @ escape_quotes text @ ''</a>''))
               else Inr text
           | None \<Rightarrow> Inr text)
      | _ \<Rightarrow> Inr match)\<close>

definition processInternalLinks ::
  "(string \<Rightarrow> string option) \<Rightarrow> string \<Rightarrow> page list option \<Rightarrow> type_error + string" where
  "processInternalLinks withUtm content availablePages =
     (case availablePages of
        None \<Rightarrow> Inr content
      | Some pages \<Rightarrow>
          if content = [] \<or> pages = [] then Inr content
          else replace_all_throwing placeholder_at (resolve_placeholder withUtm pages) content)"

subsection \<open>\<^verbatim>\<open>sanitizeBrokenPlaceholders\<close>\<close>






subsection \<open>The chain of the passes\<close>




text \<open>
  A body written as a list of segments: text, and placeholders in the micro-format. A
  segment is clean for a catalogue when its text has no opening bracket, or when its
  placeholder has a slug of the catalogue and a non-empty anchor text without an opening
  bracket, neither of them with a double quote or a closing bracket.
\<close>

datatype segment = Plain string | Link string string






section \<open>Video guardian: \<^verbatim>\<open>enforceUniqueVideoEmbeds\<close>\<close>

text \<open>A selected video; a missing \<^verbatim>\<open>videoId\<close> reads as the empty string.\<close>

record video =
  videoId :: string

text \<open>
  \<^verbatim>\<open>/<iframe[^>]+src="https:\/\/www\.youtube\.com\/embed\/([^"?&]+)[^>]*><\/iframe>/\<close>.
  The repetitions \<^verbatim>\<open>[^>]+\<close> and \<^verbatim>\<open>([^"?&]+)\<close> are greedy and give characters back: their
  lengths are tried from the longest run down to one character. After \<^verbatim>\<open>[^>]*\<close> a
  \<^verbatim>\<open>>\<close> must follow, so only its longest run can match.
\<close>

definition iframe_close :: "string \<Rightarrow> string option" where
  "iframe_close s = lit ''></iframe>'' (dropWhile (\<lambda>c. c \<noteq> CHR ''>'') s)"

definition id_char :: "char \<Rightarrow> bool" where
  \<open>id_char c = (c \<noteq> CHR 0x22 \<and> c \<noteq> CHR ''?'' \<and> c \<noteq> CHR ''&'')\<close>

definition iframe_identifier :: "string \<Rightarrow> (string \<times> string) option" where
  "iframe_identifier s =
     first_some (\<lambda>k. map_option (\<lambda>rest. (take k s, rest)) (iframe_close (drop k s)))
       (countdown (length (takeWhile id_char s)))"

definition iframe_src :: "string \<Rightarrow> (string \<times> string) option" where
  \<open>iframe_src s = do {
     r \<leftarrow> lit ''src="https://www.youtube.com/embed/'' s;
     iframe_identifier r
   }\<close>

definition iframe_at :: matcher where
  "iframe_at s = do {
     r \<leftarrow> lit ''<iframe'' s;
     (ident, rest) \<leftarrow> first_some (\<lambda>k. iframe_src (drop k r))
                        (countdown (length (takeWhile (\<lambda>c. c \<noteq> CHR ''>'') r)));
     Some (length s - length rest, [ident])
   }"

text \<open>\<^verbatim>\<open>s.indexOf(needle, from)\<close>.\<close>

definition indexOf_from :: "string \<Rightarrow> string \<Rightarrow> nat \<Rightarrow> nat option" where
  "indexOf_from s needle from =
     (if from \<le> length s then map_option (\<lambda>i. i + from) (indexOf (drop from s) needle)
      else if needle = [] then Some (length s) else None)"

text \<open>
  \<^verbatim>\<open>s.replace(pattern, replacement)\<close> with two strings: the first occurrence of the
  pattern is replaced. In the replacement \<^verbatim>\<open>$$\<close> stands for a dollar sign, \<^verbatim>\<open>$&\<close> for the
  matched text, \<^verbatim>\<open>$`\<close> for the text before it and \<^verbatim>\<open>$'\<close> for the text behind it.
\<close>

fun expand_replacement :: "string \<Rightarrow> string \<Rightarrow> string \<Rightarrow> string \<Rightarrow> string" where
  "expand_replacement matched pre post [] = []"
| "expand_replacement matched pre post [c] = [c]"
| "expand_replacement matched pre post (c # d # r) =
     (if c = CHR ''$'' \<and> d = CHR ''$'' then CHR ''$'' # expand_replacement matched pre post r
      else if c = CHR ''$'' \<and> d = CHR ''&'' then matched @ expand_replacement matched pre post r
      else if c = CHR ''$'' \<and> d = CHR 0x60 then pre @ expand_replacement matched pre post r
      else if c = CHR ''$'' \<and> d = CHR 0x27 then post @ expand_replacement matched pre post r
      else c # expand_replacement matched pre post (d # r))"

definition string_replace :: "string \<Rightarrow> string \<Rightarrow> string \<Rightarrow> string" where
  "string_replace s pattern replacement =
     (case indexOf s pattern of
        None \<Rightarrow> s
      | Some i \<Rightarrow>
          take i s
          @ expand_replacement pattern (take i s) (drop (i + length pattern) s) replacement
          @ drop (i + length pattern) s)"

text \<open>The list \<^verbatim>\<open>youtubeVideos\<close> may be \<^verbatim>\<open>null\<close> (\<open>None\<close>).\<close>

definition enforceUniqueVideoEmbeds :: "string \<Rightarrow> video list option \<Rightarrow> string" where
  "enforceUniqueVideoEmbeds content youtubeVideos =
     (case youtubeVideos of
        None \<Rightarrow> content
      | Some videos \<Rightarrow>
          if length videos < 2 then content
          else
            let matches = match_all iframe_at 0 content in
            if length matches < 2 then content
            else
              let videoIdsInContent = map (\<lambda>(i, tag, groups). capture groups 1) matches;
                  firstVideoId = videoIdsInContent ! 0;
                  isDuplicate = list_all (\<lambda>ident. ident = firstVideoId) videoIdsInContent
              in if isDuplicate then
                   (case (firstVideoId, videos ! 1, matches ! 1) of
                      (Some duplicateId, secondVideo, (secondIndex, secondTag, groups)) \<Rightarrow>
                        if videoId secondVideo \<noteq> [] \<and> videoId secondVideo \<noteq> duplicateId then
                          (case indexOf_from content secondTag secondIndex of
                             Some secondMatchIndex \<Rightarrow>
                               take secondMatchIndex content
                               @ string_replace secondTag duplicateId (videoId secondVideo)
                               @ drop (secondMatchIndex + length secondTag) content
                           | None \<Rightarrow> content)
                        else content
                    | (None, secondVideo, secondMatch) \<Rightarrow> content)
                 else content)"

section \<open>Content normalizer: \<^verbatim>\<open>normalizeGeneratedContent\<close>\<close>

text \<open>The values of a parsed JSON payload, with \<^verbatim>\<open>undefined\<close> for what a property access
  finds missing. An object is the list of its properties.\<close>

datatype js_value =
    JUndefined
  | JNull
  | JBool bool
  | JNum int
  | JStr string
  | JArr "js_value list"
  | JObj "(string \<times> js_value) list"

type_synonym js_object = "(string \<times> js_value) list"

fun truthy :: "js_value \<Rightarrow> bool" where
  "truthy JUndefined = False"
| "truthy JNull = False"
| "truthy (JBool b) = b"
| "truthy (JNum n) = (n \<noteq> 0)"
| "truthy (JStr s) = (s \<noteq> [])"
| "truthy (JArr xs) = True"
| "truthy (JObj ps) = True"

definition get_prop :: "js_object \<Rightarrow> string \<Rightarrow> js_value" where
  "get_prop obj k = (case map_of obj k of Some v \<Rightarrow> v | None \<Rightarrow> JUndefined)"

fun set_prop :: "js_object \<Rightarrow> string \<Rightarrow> js_value \<Rightarrow> js_object" where
  "set_prop [] k v = [(k, v)]"
| "set_prop ((k', v') # ps) k v =
     (if k' = k then (k, v) # ps else (k', v') # set_prop ps k v)"

text \<open>The string a template literal makes of a value.\<close>

fun to_string :: "js_value \<Rightarrow> string" where
  "to_string JUndefined = ''undefined''"
| "to_string JNull = ''null''"
| "to_string (JBool b) = (if b then ''true'' else ''false'')"
| "to_string (JNum n) = show_int n"
| "to_string (JStr s) = s"
| "to_string (JArr xs) =
     join '','' (map (\<lambda>x. if x = JUndefined \<or> x = JNull then [] else to_string x) xs)"
| "to_string (JObj ps) = ''[object Object]''"

text \<open>Every maximal run of characters of a class is replaced by a string.\<close>

function replace_runs :: "(char \<Rightarrow> bool) \<Rightarrow> string \<Rightarrow> string \<Rightarrow> string" where
  "replace_runs P new [] = []"
| "replace_runs P new (c # cs) =
     (if P c then new @ replace_runs P new (dropWhile P cs)
      else c # replace_runs P new cs)"
  by pat_completeness auto
termination
  by (relation "measure (\<lambda>(P, new, s). length s)") (auto simp: length_dropWhile_le less_Suc_eq_le)

text \<open>\<^verbatim>\<open>itemTitle.toLowerCase().replace(/\s+/g, '-').replace(/[^\w-]+/g, '')\<close>.\<close>

definition slug_of_title :: "string \<Rightarrow> string" where
  "slug_of_title itemTitle =
     replace_runs (\<lambda>c. \<not> (js_word_char c \<or> c = CHR ''-'')) []
       (replace_runs js_space ''-'' (toLowerCase itemTitle))"

text \<open>\<^verbatim>\<open>paragraphs.splice(k, 0, paragraph)\<close> on the pieces of \<^verbatim>\<open>content.split('</p>')\<close> when
  there are more than \<open>k\<close> pieces, the paragraph appended to the content otherwise.\<close>

definition inject_paragraph :: "nat \<Rightarrow> string \<Rightarrow> string \<Rightarrow> string" where
  "inject_paragraph k paragraph content =
     (let paragraphs = split_on ''</p>'' content in
      if length paragraphs > k
      then join ''</p>'' (take k paragraphs @ [paragraph] @ drop k paragraphs)
      else content @ paragraph)"

text \<open>
  \<^verbatim>\<open>if (normalized.content && !normalized.content.includes(token)) { ... }\<close>. A falsy
  content is left as it is. A truthy content that is no string has no \<^verbatim>\<open>split\<close>, and only
  an array has \<^verbatim>\<open>includes\<close>: the call throws a \<^verbatim>\<open>TypeError\<close>.
\<close>

definition ensure_placeholder :: "nat \<Rightarrow> string \<Rightarrow> js_value \<Rightarrow> type_error + js_value" where
  "ensure_placeholder k token content =
     (if \<not> truthy content then Inr content
      else
        (case content of
           JStr s \<Rightarrow>
             if js_includes s token then Inr content
             else Inr (JStr (inject_paragraph k (''<p>'' @ token @ ''</p>'') s))
         | JArr xs \<Rightarrow> if JStr token \<in> set xs then Inr content else Inl TypeError
         | _ \<Rightarrow> Inl TypeError))"

definition default_imageDetails :: "js_value \<Rightarrow> js_value \<Rightarrow> js_value" where
  \<open>default_imageDetails title slugBase =
     JArr [
       JObj [
         (''prompt'', JStr (''A high-quality, photorealistic image representing the concept of: "''
            @ to_string title
            @ ''". Cinematic, professional blog post header image, 16:9 aspect ratio.'')),
         (''altText'', JStr (''A conceptual image for "'' @ to_string title @ ''"'')),
         (''title'', JStr (to_string slugBase @ ''-feature-image'')),
         (''placeholder'', JStr ''[IMAGE_1_PLACEHOLDER]'')],
       JObj [
         (''prompt'', JStr (''An infographic or diagram illustrating a key point from the article: "''
            @ to_string title
            @ ''". Clean, modern design with clear labels. 16:9 aspect ratio.'')),
         (''altText'', JStr (''Infographic explaining a key concept from "'' @ to_string title @ ''"'')),
         (''title'', JStr (to_string slugBase @ ''-infographic'')),
         (''placeholder'', JStr ''[IMAGE_2_PLACEHOLDER]'')]]\<close>

text \<open>The critical fields.\<close>

definition normalize_critical :: "js_object \<Rightarrow> string \<Rightarrow> js_object" where
  "normalize_critical parsedJson itemTitle =
     (let n0 = parsedJson;
          n1 = (if \<not> truthy (get_prop n0 ''title'') then set_prop n0 ''title'' (JStr itemTitle) else n0);
          n2 = (if \<not> truthy (get_prop n1 ''slug'')
                then set_prop n1 ''slug'' (JStr (slug_of_title itemTitle)) else n1);
          n3 = (if \<not> truthy (get_prop n2 ''content'') then set_prop n2 ''content'' (JStr []) else n2)
      in n3)"

text \<open>The image details: kept when they are a non-empty array, made anew otherwise, and
  then the two placeholders are looked for in the content.\<close>

definition normalize_images :: "js_object \<Rightarrow> string \<Rightarrow> type_error + js_object" where
  "normalize_images n itemTitle =
     (case get_prop n ''imageDetails'' of
        JArr (x # xs) \<Rightarrow> Inr n
      | _ \<Rightarrow>
          let slugBase = (if truthy (get_prop n ''slug'') then get_prop n ''slug''
                          else JStr (slug_of_title itemTitle));
              n1 = set_prop n ''imageDetails'' (default_imageDetails (get_prop n ''title'') slugBase)
          in (case ensure_placeholder 2 ''[IMAGE_1_PLACEHOLDER]'' (get_prop n1 ''content'') of
                Inl e \<Rightarrow> Inl e
              | Inr c1 \<Rightarrow>
                  (case ensure_placeholder 5 ''[IMAGE_2_PLACEHOLDER]'' c1 of
                     Inl e \<Rightarrow> Inl e
                   | Inr c2 \<Rightarrow> Inr (set_prop n1 ''content'' c2))))"

text \<open>The other fields.\<close>

definition normalize_rest :: "js_object \<Rightarrow> string \<Rightarrow> js_object" where
  "normalize_rest n itemTitle =
     (let n1 = (if \<not> truthy (get_prop n ''metaDescription'')
                then set_prop n ''metaDescription''
                       (JStr (''Read this comprehensive guide on '' @ to_string (get_prop n ''title'') @ ''.''))
                else n);
          n2 = (if \<not> truthy (get_prop n1 ''primaryKeyword'')
                then set_prop n1 ''primaryKeyword'' (JStr itemTitle) else n1);
          n3 = (case get_prop n2 ''semanticKeywords'' of
                  JArr xs \<Rightarrow> n2
                | _ \<Rightarrow> set_prop n2 ''semanticKeywords'' (JArr []));
          n4 = (if \<not> truthy (get_prop n3 ''strategy'')
                then set_prop n3 ''strategy''
                       (JObj [(''targetAudience'', JStr []), (''searchIntent'', JStr []),
                              (''competitorAnalysis'', JStr []), (''contentAngle'', JStr [])])
                else n3);
          n5 = (if \<not> truthy (get_prop n4 ''jsonLdSchema'')
                then set_prop n4 ''jsonLdSchema'' (JObj []) else n4);
          n6 = (if \<not> truthy (get_prop n5 ''socialMediaCopy'')
                then set_prop n5 ''socialMediaCopy''
                       (JObj [(''twitter'', JStr []), (''linkedIn'', JStr [])])
                else n5)
      in n6)"

definition normalizeGeneratedContent :: "js_object \<Rightarrow> string \<Rightarrow> type_error + js_object" where
  "normalizeGeneratedContent parsedJson itemTitle =
     (case normalize_images (normalize_critical parsedJson itemTitle) itemTitle of
        Inl e \<Rightarrow> Inl e
      | Inr n \<Rightarrow> Inr (normalize_rest n itemTitle))"

section \<open>JSON extractor: \<^verbatim>\<open>extractJson\<close>\<close>

subsection \<open>\<^verbatim>\<open>JSON.parse\<close>\<close>

















subsection \<open>The cleaning steps\<close>








subsection \<open>The balanced end\<close>




section \<open>Sample data\<close>

text \<open>The page of the catalogue that the repair example is about, at any URL.\<close>

definition seo_page :: "string \<Rightarrow> page" where
  "seo_page url =
     \<lparr>page_id = url, page_title = ''The Ultimate SEO Guide 2025'', page_slug = ''seo-guide''\<rparr>"






text \<open>A property of what \<^verbatim>\<open>normalizeGeneratedContent\<close> returns (\<^verbatim>\<open>undefined\<close> when it
  throws), the test \<^verbatim>\<open>Array.isArray(v) && v.length > 0\<close>, the length of an array, an item
  of an array and a property of an object; and a payload with a body of one paragraph.\<close>

definition one_paragraph :: js_object where
  "one_paragraph = [(''content'', JStr ''<p>a</p>'')]"


definition result_prop :: "type_error + js_object \<Rightarrow> string \<Rightarrow> js_value" where
  "result_prop r k = (case r of Inr n \<Rightarrow> get_prop n k | Inl e \<Rightarrow> JUndefined)"

definition nonempty_array :: "js_value \<Rightarrow> bool" where
  "nonempty_array v = (case v of JArr (x # xs) \<Rightarrow> True | _ \<Rightarrow> False)"

definition array_length :: "js_value \<Rightarrow> nat option" where
  "array_length v = (case v of JArr xs \<Rightarrow> Some (length xs) | _ \<Rightarrow> None)"

definition array_item :: "js_value \<Rightarrow> nat \<Rightarrow> js_value" where
  "array_item v i =
     (case v of JArr xs \<Rightarrow> (if i < length xs then xs ! i else JUndefined) | _ \<Rightarrow> JUndefined)"

definition prop_of :: "js_value \<Rightarrow> string \<Rightarrow> js_value" where
  "prop_of v k = (case v of JObj ps \<Rightarrow> get_prop ps k | _ \<Rightarrow> JUndefined)"

text \<open>Two selected videos, a content with two plain embeds of the first video, and a
  content with two embeds of the first video whose tags carry the identifier in a
  \<^verbatim>\<open>title\<close> attribute as well.\<close>

definition plain_embeds :: string where
  \<open>plain_embeds = ''<iframe src="https://www.youtube.com/embed/dQw4w9WgXcQ"></iframe><p>and</p><iframe src="https://www.youtube.com/embed/dQw4w9WgXcQ"></iframe>''\<close>

definition video_A :: video where
  "video_A = \<lparr>videoId = ''dQw4w9WgXcQ''\<rparr>"

definition video_B :: video where
  "video_B = \<lparr>videoId = ''9bZkp7q19f0''\<rparr>"

definition titled_embeds :: string where
  \<open>titled_embeds = ''<iframe title="dQw4w9WgXcQ" src="https://www.youtube.com/embed/dQw4w9WgXcQ"></iframe><iframe title="dQw4w9WgXcQ" src="https://www.youtube.com/embed/dQw4w9WgXcQ"></iframe>''\<close>

text \<open>
  A catalogue of thirteen pages and a content that links to the first three of them,
  with three placeholders, and names all thirteen titles in its text; and what
  \<^verbatim>\<open>enforceInternalLinkQuota\<close> makes of it under a minimum of eight links.
\<close>

definition mk_page :: "string \<Rightarrow> string \<Rightarrow> page" where
  "mk_page slug title = \<lparr>page_id = ''https://example.com/'' @ slug @ ''/'', page_title = title, page_slug = slug\<rparr>"

text \<open>
  Three catalogues that hold the page of the repair example: with two pages that score
  lower, with a page entitled as the anchor text, and with a page that has the slug the
  placeholder names.
\<close>

definition repair_catalogue :: "page list" where
  "repair_catalogue =
     [mk_page ''link-building'' ''Link Building Guide'',
      seo_page ''https://example.com/seo-guide/'',
      mk_page ''technical-seo'' ''Technical SEO Checklist'']"

definition rival_catalogue :: "page list" where
  "rival_catalogue = [seo_page ''https://example.com/seo-guide/'', mk_page ''seo-basics'' ''SEO Guide'']"

definition taken_catalogue :: "page list" where
  "taken_catalogue = [seo_page ''https://example.com/seo-guide/'', mk_page ''seo-guide-2025'' ''Our Services'']"

definition quota_catalogue :: "page list" where
  "quota_catalogue =
     [mk_page ''kw'' ''Keyword Research 101'',
      mk_page ''audit'' ''Site Audit Basics'',
      mk_page ''local'' ''Local SEO Tips'',
      mk_page ''links'' ''Link Building 101'',
      mk_page ''pruning'' ''Content Pruning 101'',
      mk_page ''schema'' ''Schema Markup 101'',
      mk_page ''vitals'' ''Core Web Vitals'',
      mk_page ''speed'' ''Mobile Page Speed'',
      mk_page ''alt'' ''Image Alt Text'',
      mk_page ''intent'' ''Search Intent 101'',
      mk_page ''topics'' ''Topic Clusters 101'',
      mk_page ''snippets'' ''Featured Snippets 101'',
      mk_page ''crawl'' ''Crawl Budget 101'']"

definition quota_content :: string where
  \<open>quota_content = ''Read Keyword Research 101, Site Audit Basics, Local SEO Tips, Link Building 101, Content Pruning 101, Schema Markup 101, Core Web Vitals, Mobile Page Speed, Image Alt Text, Search Intent 101, Topic Clusters 101, Featured Snippets 101, Crawl Budget 101. See [INTERNAL_LINK slug="kw" text="a"] [INTERNAL_LINK slug="audit" text="b"] [INTERNAL_LINK slug="local" text="c"]''\<close>

definition quota_result :: string where
  \<open>quota_result = ''Read [INTERNAL_LINK slug="kw" text="Keyword Research 101"], [INTERNAL_LINK slug="audit" text="Site Audit Basics"], [INTERNAL_LINK slug="local" text="Local SEO Tips"], [INTERNAL_LINK slug="links" text="Link Building 101"], [INTERNAL_LINK slug="pruning" text="Content Pruning 101"], Schema Markup 101, Core Web Vitals, Mobile Page Speed, Image Alt Text, Search Intent 101, Topic Clusters 101, Featured Snippets 101, Crawl Budget 101. See [INTERNAL_LINK slug="kw" text="a"] [INTERNAL_LINK slug="audit" text="b"] [INTERNAL_LINK slug="local" text="c"]''\<close>

section \<open>Properties of the retry controller\<close>

lemmas callAiWithRetry_from_unfold = callAiWithRetry_from.simps

declare callAiWithRetry_from.simps [simp del]

lemma unavailable_retriable: "\<not> failsFast unavailable"
  by code_simp

lemma retry_all_fail:
  assumes "\<And>i. int i < maxRetries \<Longrightarrow> \<exists>e. apiCall i = Inl e \<and> \<not> failsFast e"
    and "int attempt < maxRetries"
  shows "callAiWithRetry_from apiCall maxRetries attempt
           = (Inl (Rethrown (projl (apiCall (nat (maxRetries - 1))))), nat maxRetries)"
  using assms
proof (induction apiCall maxRetries attempt rule: callAiWithRetry_from.induct)
  case (1 apiCall maxRetries attempt)
  from "1.prems" obtain e where e: "apiCall attempt = Inl e" "\<not> failsFast e"
    by blast
  show ?case
  proof (cases "int attempt = maxRetries - 1")
    case True
    then have "nat (maxRetries - 1) = attempt" "nat maxRetries = Suc attempt"
      by linarith+
    with e True "1.prems"(2) show ?thesis
      by (subst callAiWithRetry_from_unfold) simp
  next
    case False
    with "1.prems"(2) have lt: "int (Suc attempt) < maxRetries"
      by linarith
    have "callAiWithRetry_from apiCall maxRetries (Suc attempt)
            = (Inl (Rethrown (projl (apiCall (nat (maxRetries - 1))))), nat maxRetries)"
      using "1.IH"[OF "1.prems"(2) e(1) e(2) False] "1.prems"(1) lt by blast
    with e False "1.prems"(2) show ?thesis
      by (subst callAiWithRetry_from_unfold) simp
  qed
qed

text \<open>
  Claim C9. With \<^verbatim>\<open>maxRetries = 0\<close> the loop body never runs: whatever the operation
  is, it is invoked zero times and the call throws the new error
  \<^verbatim>\<open>"AI call failed after all retries."\<close>, not an error of the operation.
\<close>

theorem C9_zero_retries_never_invokes:
  "callAiWithRetry apiCall 0 = (Inl (NewError ''AI call failed after all retries.''), 0)"
  by (simp add: callAiWithRetry_def callAiWithRetry_from_unfold)

text \<open>
  Claim C3, as stated, fails: an operation that throws a retriable error (HTTP 503) on each
  of the five attempts makes \<^verbatim>\<open>callAiWithRetry\<close> throw that very error object again after
  five invocations; no new error is made.
\<close>

theorem C3_counterexample:
  "callAiWithRetry always_unavailable 5 = (Inl (Rethrown unavailable), 5)
   \<and> Rethrown unavailable \<noteq> NewError ''AI call failed after all retries.''"
proof -
  have "callAiWithRetry always_unavailable 5
          = (Inl (Rethrown (projl (always_unavailable (nat (5 - 1))))), nat 5)"
    unfolding callAiWithRetry_def
    by (rule retry_all_fail) (simp_all add: always_unavailable_def unavailable_retriable)
  then show ?thesis
    by (simp add: always_unavailable_def)
qed

text \<open>
  Claim C3, amended. When the operation fails with a retriable error on every attempt
  and at least one attempt is allowed, \<^verbatim>\<open>callAiWithRetry\<close> invokes it \<^verbatim>\<open>maxRetries\<close> times
  and then throws the error of the last attempt itself. (The new error
  \<^verbatim>\<open>"AI call failed after all retries."\<close> is thrown only when no attempt is allowed.)
\<close>

theorem C3_exhaustion_rethrows_last_error:
  assumes "1 \<le> maxRetries"
    and "\<And>i. int i < maxRetries \<Longrightarrow> \<exists>e. apiCall i = Inl e \<and> \<not> failsFast e"
  shows "callAiWithRetry apiCall maxRetries
           = (Inl (Rethrown (projl (apiCall (nat (maxRetries - 1))))), nat maxRetries)"
  unfolding callAiWithRetry_def
  using assms by (intro retry_all_fail) auto

theorem C3_exhaustion_rethrows_last_error_witness:
  "(1::int) \<le> 3
   \<and> always_unavailable 0 = Inl unavailable \<and> always_unavailable 1 = Inl unavailable
   \<and> always_unavailable 2 = Inl unavailable \<and> \<not> failsFast unavailable
   \<and> callAiWithRetry always_unavailable 3 = (Inl (Rethrown unavailable), 3)"
proof -
  have h1: "(1::int) \<le> 3" by simp
  have h2: "\<And>i. int i < 3 \<Longrightarrow> \<exists>e. always_unavailable i = Inl e \<and> \<not> failsFast e"
    by (simp add: always_unavailable_def unavailable_retriable)
  have "callAiWithRetry always_unavailable 3
          = (Inl (Rethrown (projl (always_unavailable (nat (3 - 1))))), nat 3)"
    using h1 h2 by (rule C3_exhaustion_rethrows_last_error [where maxRetries = 3])
  then have "callAiWithRetry always_unavailable 3 = (Inl (Rethrown unavailable), 3)"
    by (simp add: always_unavailable_def)
  then show ?thesis
    by (simp add: always_unavailable_def unavailable_retriable)
qed

section \<open>Properties of the quality gate\<close>

lemma space_is_js_space: "js_space CHR '' ''"
  by (simp add: js_space_def)

lemma w_not_js_space: "\<not> js_space CHR ''w''"
  by (simp add: js_space_def)

lemma strip_tags_paragraphs:
  "strip_tags (concat (replicate n ''<p>w</p>'')) = concat (replicate n '' w '')"
  by (induction n) simp_all

lemma collapse_ws_after_run:
  "collapse_ws (dropWhile js_space (concat (replicate n '' w ''))) = concat (replicate n ''w '')"
  by (induction n) (simp_all add: space_is_js_space w_not_js_space)

lemma collapse_ws_paragraphs:
  "collapse_ws (concat (replicate (Suc n) '' w ''))
     = CHR '' '' # concat (replicate (Suc n) ''w '')"
  using collapse_ws_after_run [of n] by (simp add: space_is_js_space w_not_js_space)

lemma words_snoc:
  "concat (replicate (Suc n) ''w '') = concat (replicate n ''w '') @ ''w ''"
  by (induction n) simp_all

lemma dropWhile_words:
  "dropWhile js_space (concat (replicate n ''w '') @ CHR ''w'' # s)
     = concat (replicate n ''w '') @ CHR ''w'' # s"
  by (cases n) (simp_all add: w_not_js_space)

lemma dropWhile_rev_words:
  "dropWhile js_space (rev (concat (replicate n ''w '') @ ''w''))
     = rev (concat (replicate n ''w '') @ ''w'')"
  by (simp add: w_not_js_space)

lemma trim_words:
  "trim (CHR '' '' # concat (replicate (Suc n) ''w '')) = concat (replicate n ''w '') @ ''w''"
proof -
  let ?Y = "concat (replicate n ''w '')"
  have 0: "dropWhile js_space (CHR '' '' # (?Y @ ''w '')) = dropWhile js_space (?Y @ ''w '')"
    by (simp add: space_is_js_space)
  have 1: "dropWhile js_space (CHR '' '' # concat (replicate (Suc n) ''w '')) = ?Y @ ''w ''"
    unfolding words_snoc 0 by (rule dropWhile_words)
  have 2: "rev (?Y @ ''w '') = CHR '' '' # rev (?Y @ ''w'')"
    by simp
  have 3: "dropWhile js_space (CHR '' '' # rev (?Y @ ''w'')) = rev (?Y @ ''w'')"
    using dropWhile_rev_words [of n] by (simp add: space_is_js_space)
  show ?thesis
    unfolding trim_def 1 2 3 by simp
qed

lemma split_ws_words:
  "split_ws_acc [] (concat (replicate n ''w '') @ ''w'') = replicate (Suc n) ''w''"
proof (induction n)
  case 0
  show ?case by (simp add: w_not_js_space)
next
  case (Suc n)
  then show ?case
    using dropWhile_words [of n "[]"]
    by (simp add: space_is_js_space w_not_js_space replicate_append_same)
qed

lemma countWords_paragraphs: "countWords (concat (replicate (Suc n) ''<p>w</p>'')) = Suc n"
  unfolding countWords_def textOnly_def split_ws_def strip_tags_paragraphs
    collapse_ws_paragraphs trim_words split_ws_words
  by simp

lemma countWords_five_hundred: "countWords five_hundred_words = 500"
  using countWords_paragraphs [of 499] by (simp add: five_hundred_words_def)

lemma digits_500: "digits_of 500 = ''500''"
  by code_simp

lemma digits_2200: "digits_of 2200 = ''2200''"
  by code_simp

text \<open>
  Claim C8. A content whose text, with the tags stripped and the white space collapsed,
  has 500 words is refused under a minimum of 2200: \<^verbatim>\<open>ContentTooShortError\<close> is thrown,
  carrying the count 500 and the content as it was given. The maximum never makes the
  function throw: it throws exactly when the count is below the minimum, so a content
  above the maximum of a configured range (a minimum that does not exceed the maximum)
  is not refused; the count is returned and only the warning is logged.
\<close>

theorem C8_word_count_gate:
  "(countWords content = 500 \<longrightarrow>
      enforceWordCount content 2200 maxWords
        = Inl \<lparr>errorMessage = ''CONTENT TOO SHORT: 500 words (minimum 2200 required)'',
               errorContent = content, errorWordCount = 500\<rparr>)
   \<and> isl (enforceWordCount content minWords maxWords) = (int (countWords content) < minWords)
   \<and> (minWords \<le> maxWords \<and> int (countWords content) > maxWords \<longrightarrow>
      enforceWordCount content minWords maxWords
        = Inr (countWords content, Some (int (countWords content) - maxWords)))"
  by (simp add: enforceWordCount_def show_int_def digits_500 digits_2200 Let_def)

theorem C8_word_count_gate_witness:
  "countWords five_hundred_words = 500
   \<and> enforceWordCount five_hundred_words 2200 2800
        = Inl \<lparr>errorMessage = ''CONTENT TOO SHORT: 500 words (minimum 2200 required)'',
               errorContent = five_hundred_words, errorWordCount = 500\<rparr>
   \<and> (100::int) \<le> 400 \<and> int (countWords five_hundred_words) > 400
   \<and> enforceWordCount five_hundred_words 100 400 = Inr (500, Some 100)"
  using C8_word_count_gate [of five_hundred_words 2800 100]
        C8_word_count_gate [of five_hundred_words 400 100]
  by (simp add: countWords_five_hundred)

section \<open>Properties of the internal link engine\<close>

lemma starts_with_append: "starts_with (p @ r) p"
  by (induction p) simp_all

lemma lit_append: "lit p (p @ r) = Some r"
  by (simp add: lit_def starts_with_append)

lemma lit_head_differs: "c \<noteq> p \<Longrightarrow> lit (p # ps) (c # cs) = None"
  by (simp add: lit_def)

lemma many1_one_space:
  "js_space c \<Longrightarrow> \<not> js_space d \<Longrightarrow> many1 js_space (c # d # r) = Some ([c], d # r)"
  by (simp add: many1_def)

lemma many1_until_quote:
  "v \<noteq> [] \<Longrightarrow> CHR 0x22 \<notin> set v \<Longrightarrow>
   many1 (\<lambda>c. c \<noteq> CHR 0x22) (v @ CHR 0x22 # r) = Some (v, CHR 0x22 # r)"
proof -
  assume v: "v \<noteq> []" "CHR 0x22 \<notin> set v"
  then have all: "\<And>x. x \<in> set v \<Longrightarrow> x \<noteq> CHR 0x22"
    by auto
  have t: "takeWhile (\<lambda>c. c \<noteq> CHR 0x22) (v @ CHR 0x22 # r) = v"
    using all by (simp add: takeWhile_append2)
  have d: "dropWhile (\<lambda>c. c \<noteq> CHR 0x22) (v @ CHR 0x22 # r) = CHR 0x22 # r"
    using all by (simp add: dropWhile_append2)
  show ?thesis
    unfolding many1_def t d using v(1) by simp
qed

lemma s_t_not_js_space: "\<not> js_space CHR ''s''" "\<not> js_space CHR ''t''"
  by (simp_all add: js_space_def)

lemma make_placeholder_parts:
  \<open>make_placeholder slug text @ rest
     = ''[INTERNAL_LINK'' @ CHR '' '' # CHR ''s'' # (''lug="'' @ slug @ CHR 0x22 # CHR '' '' # CHR ''t'' # (''ext="'' @ text @ CHR 0x22 # CHR '']'' # rest))\<close>
  by (simp add: make_placeholder_def)

lemma length_make_placeholder: "length (make_placeholder slug text) = 31 + length slug + length text"
  by (simp add: make_placeholder_def)

lemma placeholder_at_make:
  assumes "slug \<noteq> []" "CHR 0x22 \<notin> set slug" "text \<noteq> []" "CHR 0x22 \<notin> set text"
  shows "placeholder_at (make_placeholder slug text @ rest)
           = Some (length (make_placeholder slug text), [slug, text])"
proof -
  have a: \<open>lit ''slug="'' (CHR ''s'' # (''lug="'' @ slug @ r)) = Some (slug @ r)\<close> for r
    using lit_append [of \<open>''slug="''\<close> "slug @ r"] by simp
  have b: \<open>lit ''text="'' (CHR ''t'' # (''ext="'' @ text @ r)) = Some (text @ r)\<close> for r
    using lit_append [of \<open>''text="''\<close> "text @ r"] by simp
  have c: \<open>lit ''"'' (CHR 0x22 # r) = Some r\<close> for r
    by (simp add: lit_def)
  have d: \<open>lit ''"]'' (CHR 0x22 # CHR '']'' # r) = Some r\<close> for r
    by (simp add: lit_def)
  have e: "length (make_placeholder slug text @ rest) - length rest = length (make_placeholder slug text)"
    by simp
  show ?thesis
    unfolding placeholder_at_def
    apply (subst (1) make_placeholder_parts)
    apply (simp only: lit_append bind.simps many1_one_space [OF space_is_js_space s_t_not_js_space(1)] many1_one_space [OF space_is_js_space s_t_not_js_space(2)]
        a b c d many1_until_quote [OF assms(1,2)] many1_until_quote [OF assms(3,4)] case_prod_conv e)
    done
qed



lemma replace_all_match:
  assumes "m s = Some (n, groups)" "0 < n" "n \<le> length s"
  shows "replace_all m f s = f (take n s) groups @ replace_all m f (drop n s)"
proof (cases s)
  case Nil with assms show ?thesis by simp
next
  case (Cons c cs)
  with assms have "drop (n - 1) cs = drop n s" by (cases n) simp_all
  with Cons assms show ?thesis by simp
qed

lemma replace_all_make:
  assumes "slug \<noteq> []" "CHR 0x22 \<notin> set slug" "text \<noteq> []" "CHR 0x22 \<notin> set text"
  shows "replace_all placeholder_at f (make_placeholder slug text @ rest)
           = f (make_placeholder slug text) [slug, text] @ replace_all placeholder_at f rest"
proof -
  have "replace_all placeholder_at f (make_placeholder slug text @ rest)
          = f (take (length (make_placeholder slug text)) (make_placeholder slug text @ rest)) [slug, text]
            @ replace_all placeholder_at f
                (drop (length (make_placeholder slug text)) (make_placeholder slug text @ rest))"
    by (rule replace_all_match [where m = placeholder_at, OF placeholder_at_make [OF assms]])
       (simp_all add: length_make_placeholder)
  then show ?thesis
    by simp
qed

text \<open>
  A match of the placeholder expression that starts before a placeholder ends before it,
  when the slug of that placeholder begins neither with white space nor with a closing
  bracket: the expression matches in a text, a placeholder put behind it, as it matches in
  the text alone.
\<close>

lemma starts_with_length: "starts_with s p \<Longrightarrow> length p \<le> length s"
  by (induction s p rule: starts_with.induct) (simp_all split: if_splits)

lemma starts_with_barrier:
  "b \<notin> set p \<Longrightarrow> starts_with (u @ b # r) p = starts_with u p"
  by (induction u p rule: starts_with.induct) auto

lemma lit_barrier:
  "b \<notin> set p \<Longrightarrow> lit p (u @ b # r) = map_option (\<lambda>x. x @ b # r) (lit p u)"
  by (auto simp: lit_def starts_with_barrier dest: starts_with_length)

lemma takeWhile_barrier: "\<not> P b \<Longrightarrow> takeWhile P (u @ b # r) = takeWhile P u"
  by (induction u) simp_all

lemma dropWhile_barrier: "\<not> P b \<Longrightarrow> dropWhile P (u @ b # r) = dropWhile P u @ b # r"
  by (induction u) simp_all

lemma many1_barrier:
  "\<not> P b \<Longrightarrow> many1 P (u @ b # r) = map_option (\<lambda>(w, x). (w, x @ b # r)) (many1 P u)"
  by (simp add: many1_def takeWhile_barrier dropWhile_barrier)

lemma takeWhile_stops: "\<exists>x\<in>set u. \<not> P x \<Longrightarrow> takeWhile P (u @ v) = takeWhile P u"
  by (induction u) auto

lemma dropWhile_stops: "\<exists>x\<in>set u. \<not> P x \<Longrightarrow> dropWhile P (u @ v) = dropWhile P u @ v"
  by (induction u) auto

lemma many1_stops:
  "\<exists>x\<in>set u. \<not> P x \<Longrightarrow> many1 P (u @ v) = map_option (\<lambda>(w, x). (w, x @ v)) (many1 P u)"
  by (simp add: many1_def takeWhile_stops dropWhile_stops)

lemma many1_runs_on:
  "\<forall>x\<in>set u. P x \<Longrightarrow> many1 P u = (if u = [] then None else Some (u, []))"
  by (cases u) (simp_all add: many1_def)

lemma placeholder_at_parts:
  \<open>placeholder_at s = do {
     r1 \<leftarrow> lit ''[INTERNAL_LINK'' s;
     (ws1, r2) \<leftarrow> many1 js_space r1;
     r3 \<leftarrow> lit ''slug="'' r2;
     (slug, r7) \<leftarrow> slug_attr r3;
     (text, r9) \<leftarrow> text_attr r7;
     Some (length s - length r9, [slug, text])
   }\<close>
  unfolding placeholder_at_def slug_attr_def text_attr_def
  by (simp add: split_def cong: Option.bind_cong)

lemma run_crosses:
  assumes "CHR 0x22 \<notin> set r" "CHR 0x22 \<notin> set Q"
  shows "many1 (\<lambda>c. c \<noteq> CHR 0x22) (r @ CHR ''['' # Q @ CHR 0x22 # rest)
           = Some (r @ CHR ''['' # Q, CHR 0x22 # rest)"
proof -
  have "many1 (\<lambda>c. c \<noteq> CHR 0x22) ((r @ CHR ''['' # Q) @ CHR 0x22 # rest)
          = Some (r @ CHR ''['' # Q, CHR 0x22 # rest)"
    using assms by (intro many1_until_quote) auto
  then show ?thesis by simp
qed

lemma text_attr_before:
  assumes "CHR 0x22 \<notin> set Q" "slug \<noteq> []" "hd slug \<noteq> CHR '']''"
  shows "text_attr (r @ CHR ''['' # Q @ CHR 0x22 # slug @ R)
           = map_option (\<lambda>(x, r9). (x, r9 @ CHR ''['' # Q @ CHR 0x22 # slug @ R)) (text_attr r)"
proof (cases "CHR 0x22 \<in> set r")
  case True
  then have stops: "\<exists>x\<in>set r. \<not> x \<noteq> CHR 0x22" by auto
  show ?thesis
  proof (cases "many1 (\<lambda>c. c \<noteq> CHR 0x22) r")
    case None
    then show ?thesis
      unfolding text_attr_def by (simp add: many1_stops [OF stops])
  next
    case (Some a)
    then show ?thesis
      unfolding text_attr_def
      by (cases a; cases "lit ''\"]'' (snd a)") (simp_all add: many1_stops [OF stops] lit_barrier)
  qed
next
  case False
  obtain c cs where slug: "slug = c # cs" "c \<noteq> CHR '']''"
    using assms(2,3) by (cases slug) auto
  have l: "text_attr (r @ CHR ''['' # Q @ CHR 0x22 # slug @ R) = None"
    unfolding text_attr_def run_crosses [OF False assms(1)] using slug by (simp add: lit_def)
  have all: "\<forall>x\<in>set r. x \<noteq> CHR 0x22"
    using False by auto
  have "text_attr r = None"
    unfolding text_attr_def by (simp add: many1_runs_on [OF all] lit_def)
  with l show ?thesis by simp
qed


lemma slug_attr_before:
  assumes "CHR 0x22 \<notin> set Q" "slug \<noteq> []" "\<not> js_space (hd slug)"
  shows "slug_attr (r @ CHR ''['' # Q @ CHR 0x22 # slug @ R)
           = map_option (\<lambda>(x, r7). (x, r7 @ CHR ''['' # Q @ CHR 0x22 # slug @ R)) (slug_attr r)"
proof (cases "CHR 0x22 \<in> set r")
  case True
  then have stops: "\<exists>x\<in>set r. \<not> x \<noteq> CHR 0x22" by auto
  have "\<not> js_space CHR ''[''"
    by (simp add: js_space_def)
  note nb = many1_barrier [of js_space "CHR ''[''", OF this]
  show ?thesis
  proof (cases "many1 (\<lambda>c. c \<noteq> CHR 0x22) r")
    case None
    then show ?thesis
      unfolding slug_attr_def by (simp add: many1_stops [OF stops])
  next
    case (Some a)
    show ?thesis
    proof (cases "lit ''\"'' (snd a)")
      case None
      with Some show ?thesis
        unfolding slug_attr_def by (cases a) (simp add: many1_stops [OF stops] lit_barrier)
    next
      case r5: (Some r5)
      show ?thesis
      proof (cases "many1 js_space r5")
        case None
        with Some r5 show ?thesis
          unfolding slug_attr_def
          by (cases a) (simp add: many1_stops [OF stops] lit_barrier nb)
      next
        case b: (Some b)
        with Some r5 show ?thesis
          unfolding slug_attr_def
          by (cases a; cases b; cases "lit ''text=\"'' (snd b)")
             (simp_all add: many1_stops [OF stops] lit_barrier nb)
      qed
    qed
  qed
next
  case False
  obtain c cs where slug: "slug = c # cs" "\<not> js_space c"
    using assms(2,3) by (cases slug) auto
  have l: "slug_attr (r @ CHR ''['' # Q @ CHR 0x22 # slug @ R) = None"
    unfolding slug_attr_def run_crosses [OF False assms(1)] using slug by (simp add: lit_def many1_def)
  have all: "\<forall>x\<in>set r. x \<noteq> CHR 0x22"
    using False by auto
  have "slug_attr r = None"
    unfolding slug_attr_def by (simp add: many1_runs_on [OF all] lit_def)
  with l show ?thesis by simp
qed

lemma lit_first_before:
  assumes "u \<noteq> []"
  shows "lit ''[INTERNAL_LINK'' (u @ CHR ''['' # r)
           = map_option (\<lambda>x. x @ CHR ''['' # r) (lit ''[INTERNAL_LINK'' u)"
proof -
  obtain c cs where u: "u = c # cs"
    using assms by (cases u) auto
  have "lit (CHR ''['' # ''INTERNAL_LINK'') (c # cs @ CHR ''['' # r)
          = (if c = CHR ''['' then lit ''INTERNAL_LINK'' (cs @ CHR ''['' # r) else None)"
    by (simp add: lit_def)
  moreover have "lit (CHR ''['' # ''INTERNAL_LINK'') (c # cs)
          = (if c = CHR ''['' then lit ''INTERNAL_LINK'' cs else None)"
    by (simp add: lit_def)
  ultimately show ?thesis
    unfolding u by (simp add: lit_barrier)
qed

lemma placeholder_at_before:
  assumes "u \<noteq> []" "slug \<noteq> []" "\<not> js_space (hd slug)" "hd slug \<noteq> CHR '']''"
  shows "placeholder_at (u @ make_placeholder slug text @ post) = placeholder_at u"
proof -
  define Q where "Q = ''INTERNAL_LINK slug=''"
  define R where \<open>R = ''" text="'' @ text @ ''"]'' @ post\<close>
  have q: "CHR 0x22 \<notin> set Q"
    by (simp add: Q_def)
  have t: "make_placeholder slug text @ post = CHR ''['' # Q @ CHR 0x22 # slug @ R"
    by (simp add: make_placeholder_def Q_def R_def)
  have "\<not> js_space CHR ''[''"
    by (simp add: js_space_def)
  note nb = many1_barrier [of js_space "CHR ''[''", OF this]
  show ?thesis
    unfolding t placeholder_at_parts
    by (simp add: lit_first_before [OF assms(1)] nb lit_barrier
        slug_attr_before [OF q assms(2,3)] text_attr_before [OF q assms(2,4)]
        Option.bind_map_option o_def split_def cong: Option.bind_cong)
qed

lemma placeholder_at_length: "placeholder_at s = Some (n, g) \<Longrightarrow> n \<le> length s"
  by (auto simp: placeholder_at_def split: Option.bind_splits prod.splits)

lemma replace_all_before:
  assumes "slug \<noteq> []" "\<not> js_space (hd slug)" "hd slug \<noteq> CHR '']''"
  shows "replace_all placeholder_at f (pre @ make_placeholder slug text @ post)
           = replace_all placeholder_at f pre
             @ replace_all placeholder_at f (make_placeholder slug text @ post)"
proof (induction pre rule: length_induct)
  case (1 pre)
  show ?case
  proof (cases pre)
    case Nil
    then show ?thesis by simp
  next
    case (Cons c cs)
    have same: "placeholder_at ((c # cs) @ make_placeholder slug text @ post) = placeholder_at (c # cs)"
      by (rule placeholder_at_before [OF _ assms]) simp
    show ?thesis
    proof (cases "placeholder_at (c # cs)")
      case None
      with same 1 Cons show ?thesis by simp
    next
      case (Some a)
      obtain n g where a: "a = (n, g)" by (cases a)
      with Some have n: "n \<le> length (c # cs)"
        by (auto dest: placeholder_at_length)
      then have d: "drop (n - 1) (cs @ make_placeholder slug text @ post)
                      = drop (n - 1) cs @ make_placeholder slug text @ post"
        by simp
      have t: "take n (c # cs @ make_placeholder slug text @ post) = take n (c # cs)"
        using n by (cases n) simp_all
      have "length (drop (n - 1) cs) < length pre"
        using Cons by simp
      with 1 have ih: "replace_all placeholder_at f (drop (n - 1) cs @ make_placeholder slug text @ post)
                        = replace_all placeholder_at f (drop (n - 1) cs)
                          @ replace_all placeholder_at f (make_placeholder slug text @ post)"
        by blast
      from same Some a have m: "placeholder_at (c # cs @ make_placeholder slug text @ post) = Some (n, g)"
        by simp
      show ?thesis
        unfolding Cons using Some a m t d ih by simp
    qed
  qed
qed

text \<open>The loop over the catalogue keeps a page of the highest score.\<close>

lemma best_match_bound:
  "best_match a w ps (b, h) = (b', h') \<Longrightarrow>
   h \<le> h' \<and> (\<forall>q\<in>set ps. \<forall>s. page_score a w q = Some s \<longrightarrow> s \<le> h')"
proof (induction ps arbitrary: b h)
  case Nil
  then show ?case by simp
next
  case (Cons p ps)
  show ?case
  proof (cases "page_score a w p")
    case None
    with Cons.prems have "best_match a w ps (b, h) = (b', h')" by simp
    from Cons.IH [OF this] None show ?thesis by auto
  next
    case (Some s)
    show ?thesis
    proof (cases "s > h")
      case True
      with Some Cons.prems have "best_match a w ps (Some p, s) = (b', h')" by simp
      from Cons.IH [OF this] Some True show ?thesis by auto
    next
      case False
      with Some Cons.prems have "best_match a w ps (b, h) = (b', h')" by simp
      from Cons.IH [OF this] Some False show ?thesis by auto
    qed
  qed
qed

lemma best_match_source:
  "best_match a w ps (b, h) = (b', h') \<Longrightarrow>
   (b' = b \<and> h' = h) \<or> (\<exists>q\<in>set ps. b' = Some q \<and> page_score a w q = Some h')"
proof (induction ps arbitrary: b h)
  case Nil
  then show ?case by simp
next
  case (Cons p ps)
  show ?case
  proof (cases "page_score a w p")
    case None
    with Cons.prems have "best_match a w ps (b, h) = (b', h')" by simp
    from Cons.IH [OF this] show ?thesis by auto
  next
    case (Some s)
    show ?thesis
    proof (cases "s > h")
      case True
      with Some Cons.prems have "best_match a w ps (Some p, s) = (b', h')" by simp
      from Cons.IH [OF this] Some show ?thesis by auto
    next
      case False
      with Some Cons.prems have "best_match a w ps (b, h) = (b', h')" by simp
      from Cons.IH [OF this] show ?thesis by auto
    qed
  qed
qed

text \<open>
  Claim C10. With a catalogue that is \<^verbatim>\<open>null\<close> or empty, each of the three passes returns
  the content it was given, whatever the content is.
\<close>

theorem C10_identity_without_catalogue:
  "validateAndRepairInternalLinks content None = content
   \<and> validateAndRepairInternalLinks content (Some []) = content
   \<and> enforceInternalLinkQuota content None primaryKeyword minLinks = content
   \<and> enforceInternalLinkQuota content (Some []) primaryKeyword minLinks = content
   \<and> processInternalLinks withUtm content None = Inr content
   \<and> processInternalLinks withUtm content (Some []) = Inr content"
  by (simp add: validateAndRepairInternalLinks_def enforceInternalLinkQuota_def
      processInternalLinks_def)

lemma seo_page_score: "anchor_score ''SEO Guide'' (seo_page url) = Some 130"
  by code_simp

lemma repair_best_page:
  assumes "seo_page url \<in> set pages"
    and "''seo-guide-2025'' \<notin> set (map page_slug pages)"
    and "list_all (\<lambda>q. page_slug q = ''seo-guide'' \<or> scores_below 130 ''SEO Guide'' q) pages"
  shows "repair_placeholder pages whole [''seo-guide-2025'', ''SEO Guide'']
           = make_placeholder ''seo-guide'' ''SEO Guide''"
proof -
  define a where "a = toLowerCase ''SEO Guide''"
  define w where "w = remdups (meaningful_words a)"
  obtain b h where bm: "best_match a w pages (None, - 1) = (b, h)"
    by (cases "best_match a w pages (None, - 1)")
  have score: "page_score a w (seo_page url) = Some 130"
    using seo_page_score [of url] by (simp add: anchor_score_def a_def w_def)
  from best_match_bound [OF bm] assms(1) score have h: "130 \<le> h"
    by blast
  with best_match_source [OF bm] obtain q where q: "q \<in> set pages" "b = Some q" "page_score a w q = Some h"
    by auto
  from assms(3) q(1) have "page_slug q = ''seo-guide'' \<or> scores_below 130 ''SEO Guide'' q"
    by (simp add: list_all_iff)
  with q(3) h have slug: "page_slug q = ''seo-guide''"
    by (auto simp: scores_below_def anchor_score_def a_def w_def)
  have esc: "escape_quotes ''SEO Guide'' = ''SEO Guide''"
    by (simp add: escape_quotes_def)
  show ?thesis
    unfolding repair_placeholder_def
    using assms(2) bm q(2) h slug esc by (simp add: capture_def a_def w_def Let_def)
qed

text \<open>
  Claim C6 fails for two catalogues that hold the page. Beside a page entitled
  \<^verbatim>\<open>SEO Guide\<close>, which scores 310, the placeholder is rewritten to the slug of that page;
  and when a page of the catalogue has the slug \<^verbatim>\<open>seo-guide-2025\<close>, the placeholder is left
  as it is.
\<close>

theorem C6_counterexample:
  \<open>seo_page ''https://example.com/seo-guide/'' \<in> set rival_catalogue
   \<and> validateAndRepairInternalLinks
       ''<p>Read [more] in our [INTERNAL_LINK slug="seo-guide-2025" text="SEO Guide"] today.</p>''
       (Some rival_catalogue)
     = ''<p>Read [more] in our [INTERNAL_LINK slug="seo-basics" text="SEO Guide"] today.</p>''
   \<and> seo_page ''https://example.com/seo-guide/'' \<in> set taken_catalogue
   \<and> validateAndRepairInternalLinks
       ''<p>Read [more] in our [INTERNAL_LINK slug="seo-guide-2025" text="SEO Guide"] today.</p>''
       (Some taken_catalogue)
     = ''<p>Read [more] in our [INTERNAL_LINK slug="seo-guide-2025" text="SEO Guide"] today.</p>''\<close>
  by code_simp

text \<open>
  Claim C6, amended. The catalogue holds the page with the slug \<^verbatim>\<open>seo-guide\<close> and the title
  \<^verbatim>\<open>The Ultimate SEO Guide 2025\<close>, no page of it has the slug \<^verbatim>\<open>seo-guide-2025\<close>, and every
  page with another slug than \<^verbatim>\<open>seo-guide\<close> is passed over by the scoring or scores below
  130 for the anchor text \<^verbatim>\<open>SEO Guide\<close>. The content holds the placeholder with the invented
  slug \<^verbatim>\<open>seo-guide-2025\<close> and that anchor text, behind any text and before any text. Then the
  page scores 130, which is above 50, and the repair pass rewrites the placeholder to the
  slug \<^verbatim>\<open>seo-guide\<close>; the text before it and the text behind it are repaired as they are on
  their own.
\<close>

theorem C6_repair_rewrites_to_real_slug:
  assumes "seo_page url \<in> set pages"
    and "''seo-guide-2025'' \<notin> set (map page_slug pages)"
    and "list_all (\<lambda>q. page_slug q = ''seo-guide'' \<or> scores_below 130 ''SEO Guide'' q) pages"
  shows \<open>validateAndRepairInternalLinks
           (pre @ ''[INTERNAL_LINK slug="seo-guide-2025" text="SEO Guide"]'' @ post) (Some pages)
         = validateAndRepairInternalLinks pre (Some pages)
             @ ''[INTERNAL_LINK slug="seo-guide" text="SEO Guide"]''
             @ validateAndRepairInternalLinks post (Some pages)
         \<and> anchor_score ''SEO Guide'' (seo_page url) = Some 130\<close>
proof -
  have old: \<open>''[INTERNAL_LINK slug="seo-guide-2025" text="SEO Guide"]''
               = make_placeholder ''seo-guide-2025'' ''SEO Guide''\<close>
    by (simp add: make_placeholder_def)
  have new: \<open>''[INTERNAL_LINK slug="seo-guide" text="SEO Guide"]''
               = make_placeholder ''seo-guide'' ''SEO Guide''\<close>
    by (simp add: make_placeholder_def)
  from assms(1) have pages: "pages \<noteq> []"
    by auto
  have pass: "validateAndRepairInternalLinks s (Some pages)
               = replace_all placeholder_at (repair_placeholder pages) s" for s
    using pages by (cases s) (simp_all add: validateAndRepairInternalLinks_def)
  have "replace_all placeholder_at (repair_placeholder pages)
          (pre @ make_placeholder ''seo-guide-2025'' ''SEO Guide'' @ post)
        = replace_all placeholder_at (repair_placeholder pages) pre
          @ replace_all placeholder_at (repair_placeholder pages)
              (make_placeholder ''seo-guide-2025'' ''SEO Guide'' @ post)"
    by (rule replace_all_before) (simp_all add: js_space_def)
  also have "replace_all placeholder_at (repair_placeholder pages)
               (make_placeholder ''seo-guide-2025'' ''SEO Guide'' @ post)
             = make_placeholder ''seo-guide'' ''SEO Guide''
               @ replace_all placeholder_at (repair_placeholder pages) post"
    by (subst replace_all_make) (simp_all add: repair_best_page [OF assms])
  finally show ?thesis
    unfolding old new pass using seo_page_score by simp
qed

lemma repair_catalogue_hypotheses:
  "seo_page ''https://example.com/seo-guide/'' \<in> set repair_catalogue"
  "''seo-guide-2025'' \<notin> set (map page_slug repair_catalogue)"
  "list_all (\<lambda>q. page_slug q = ''seo-guide'' \<or> scores_below 130 ''SEO Guide'' q) repair_catalogue"
  by code_simp+

lemma repair_catalogue_scores:
  "map (anchor_score ''SEO Guide'') repair_catalogue
     = [Some (fl (125 / 3)), Some 130, Some (fl (125 / 3))]"
  by code_simp

lemma repair_around:
  "validateAndRepairInternalLinks ''<p>Read [more] in our '' (Some repair_catalogue) = ''<p>Read [more] in our ''"
  "validateAndRepairInternalLinks '' today.</p>'' (Some repair_catalogue) = '' today.</p>''"
  by code_simp+

theorem C6_repair_rewrites_to_real_slug_witness:
  \<open>seo_page ''https://example.com/seo-guide/'' \<in> set repair_catalogue
   \<and> ''seo-guide-2025'' \<notin> set (map page_slug repair_catalogue)
   \<and> list_all (\<lambda>q. page_slug q = ''seo-guide'' \<or> scores_below 130 ''SEO Guide'' q) repair_catalogue
   \<and> validateAndRepairInternalLinks
       ''<p>Read [more] in our [INTERNAL_LINK slug="seo-guide-2025" text="SEO Guide"] today.</p>''
       (Some repair_catalogue)
     = ''<p>Read [more] in our [INTERNAL_LINK slug="seo-guide" text="SEO Guide"] today.</p>''\<close>
  using C6_repair_rewrites_to_real_slug [OF repair_catalogue_hypotheses,
      of "''<p>Read [more] in our ''" "'' today.</p>''"]
    repair_catalogue_hypotheses
  by (simp add: repair_around)

text \<open>
  The expression that counts the existing links has no capture group, so \<^verbatim>\<open>match[1]\<close> is
  \<^verbatim>\<open>undefined\<close> for every match: no slug is ever in \<^verbatim>\<open>linkedSlugs\<close>, and the candidate pool
  is the same whatever the content already links to.
\<close>

lemma quota_groups: "quota_placeholder_at s = Some (n, groups) \<Longrightarrow> groups = []"
  by (auto simp: quota_placeholder_at_def)

lemma match_all_quota_groups:
  "(i, tag, groups) \<in> set (match_all quota_placeholder_at k s) \<Longrightarrow> groups = []"
proof (induction quota_placeholder_at k s rule: match_all.induct)
  case (1 i)
  then show ?case by simp
next
  case (2 k c cs)
  then show ?case
    by (auto split: option.splits dest: quota_groups)
qed

lemma linkedSlugs_undefined: "Some slug \<notin> set (linkedSlugs content)"
  by (auto simp: linkedSlugs_def capture_def dest: match_all_quota_groups)

lemma candidatePages_any_content: "candidatePages content pages = candidatePages [] pages"
  by (simp add: candidatePages_def linkedSlugs_undefined)

lemma quota_pool: "map (\<lambda>(p, ts). page_slug p) (candidatePages [] quota_catalogue) = map page_slug quota_catalogue"
  by code_simp

lemma quota_existing: "length (match_all quota_placeholder_at 0 quota_content) = 3"
  by code_simp

lemma quota_loop_result: "quota_loop (candidatePages [] quota_catalogue) 5 [] quota_content = quota_result"
  by code_simp

lemma quota_catalogue_nonempty: "quota_catalogue \<noteq> []"
  by (simp add: quota_catalogue_def)

text \<open>
  Claim C4 fails on the code. The content has three valid placeholders, the minimum is
  eight, and ten pages that are not linked yet can each be matched by their title. Five
  placeholders are added, but the pool holds the three linked pages too, they come
  first, and the pages \<^verbatim>\<open>kw\<close>, \<^verbatim>\<open>audit\<close> and \<^verbatim>\<open>local\<close> are each linked a second time.
\<close>

theorem C4_quota_duplicates_linked_pages:
  "enforceInternalLinkQuota quota_content (Some quota_catalogue) primaryKeyword 8 = quota_result
   \<and> map (\<lambda>(p, ts). page_slug p) (candidatePages quota_content quota_catalogue)
       = map page_slug quota_catalogue"
proof -
  have "enforceInternalLinkQuota quota_content (Some quota_catalogue) primaryKeyword 8 = quota_result"
    unfolding enforceInternalLinkQuota_def candidatePages_any_content [of quota_content]
    using quota_catalogue_nonempty by (simp add: quota_existing quota_loop_result Let_def)
  then show ?thesis
    by (simp add: candidatePages_any_content [of quota_content] quota_pool)
qed

subsection \<open>The chain of the passes\<close>





































section \<open>Properties of the video guardian\<close>

lemma titled_embeds_identifiers:
  "map (\<lambda>(i, tag, groups). groups) (match_all iframe_at 0 titled_embeds)
     = [[''dQw4w9WgXcQ''], [''dQw4w9WgXcQ'']]"
  by code_simp

text \<open>
  Claim C7 fails on the code. Both embeds carry the identifier of video A and video B is
  another video, but it is the \<^verbatim>\<open>title\<close> attribute of the second tag that is rewritten:
  \<^verbatim>\<open>secondMatch[0].replace(duplicateId, ...)\<close> replaces the first occurrence of the
  identifier in the tag, and the embedded identifier stays that of video A.
\<close>

theorem C7_rewrites_first_occurrence_in_tag:
  \<open>enforceUniqueVideoEmbeds titled_embeds (Some [video_A, video_B])
     = ''<iframe title="dQw4w9WgXcQ" src="https://www.youtube.com/embed/dQw4w9WgXcQ"></iframe><iframe title="9bZkp7q19f0" src="https://www.youtube.com/embed/dQw4w9WgXcQ"></iframe>''\<close>
  by code_simp

text \<open>Where the identifier occurs in the second tag only as the embedded identifier,
  that identifier is rewritten, as in this example.\<close>

lemma plain_embeds_corrected:
  \<open>enforceUniqueVideoEmbeds plain_embeds (Some [video_A, video_B])
     = ''<iframe src="https://www.youtube.com/embed/dQw4w9WgXcQ"></iframe><p>and</p><iframe src="https://www.youtube.com/embed/9bZkp7q19f0"></iframe>''\<close>
  by code_simp

text \<open>The second half of claim C7 holds: nothing changes with fewer than two selected
  videos or fewer than two embeds.\<close>

lemma enforceUniqueVideoEmbeds_noop:
  "enforceUniqueVideoEmbeds content None = content"
  "length videos < 2 \<Longrightarrow> enforceUniqueVideoEmbeds content (Some videos) = content"
  "length (match_all iframe_at 0 content) < 2 \<Longrightarrow>
     enforceUniqueVideoEmbeds content (Some videos) = content"
  by (simp_all add: enforceUniqueVideoEmbeds_def Let_def)

section \<open>Properties of the content normalizer\<close>

text \<open>
  Claim C1, as stated, fails: for the empty object the content is defaulted to the empty
  string, the empty string is falsy, and the two injections are guarded by
  \<^verbatim>\<open>normalized.content && ...\<close>. The body stays empty and holds neither token.
\<close>

theorem C1_counterexample:
  "result_prop (normalizeGeneratedContent [] ''My Topic'') ''content'' = JStr []
   \<and> \<not> js_includes [] ''[IMAGE_1_PLACEHOLDER]''
   \<and> \<not> js_includes [] ''[IMAGE_2_PLACEHOLDER]''"
  by code_simp

lemma starts_with_prefix: "starts_with s p \<longleftrightarrow> prefix p s"
  by (induction s p rule: starts_with.induct) simp_all

lemma js_includes_sublist: "js_includes s t \<longleftrightarrow> sublist t s"
  by (induction s) (simp_all add: starts_with_prefix sublist_Cons_right)

lemma join_Cons: "rest \<noteq> [] \<Longrightarrow> join sep (x # rest) = x @ sep @ join sep rest"
  by (cases rest) simp_all

lemma sublist_prepend:
  assumes "sublist p ys"
  shows "sublist p (zs @ ys)"
proof -
  from assms obtain a b where "ys = a @ p @ b"
    by (auto simp: sublist_def)
  then have "zs @ ys = (zs @ a) @ p @ b"
    by simp
  then show ?thesis
    unfolding sublist_def by blast
qed

lemma sublist_join: "p \<in> set xs \<Longrightarrow> sublist p (join sep xs)"
proof (induction xs)
  case Nil
  then show ?case by simp
next
  case (Cons x xs)
  show ?case
  proof (cases "xs = []")
    case True
    with Cons.prems show ?thesis by simp
  next
    case False
    then have j: "join sep (x # xs) = x @ sep @ join sep xs"
      by (rule join_Cons)
    show ?thesis
    proof (cases "p = x")
      case True
      then show ?thesis unfolding j by simp
    next
      case neq: False
      with Cons have "sublist p (join sep xs)" by simp
      then have "sublist p ((x @ sep) @ join sep xs)"
        by (rule sublist_prepend)
      then show ?thesis unfolding j by simp
    qed
  qed
qed

lemma sublist_around:
  assumes "sublist t (a @ m @ b)" "set t \<inter> set m = {}" "t \<noteq> []" "m \<noteq> []"
  shows "sublist t a \<or> sublist t b"
proof -
  from assms(1) obtain u v where eq: "a @ m @ b = u @ t @ v"
    by (auto simp: sublist_def)
  consider "length u + length t \<le> length a" | "length a + length m \<le> length u"
    | "length a < length u + length t" "length u < length a + length m"
    by linarith
  then show ?thesis
  proof cases
    case 1
    have "take (length u + length t) (a @ m @ b) = take (length u + length t) a"
      using 1 by simp
    moreover have "take (length u + length t) (u @ t @ v) = u @ t"
      by simp
    ultimately have "take (length u + length t) a = u @ t"
      using eq by simp
    then have "a = u @ t @ drop (length u + length t) a"
      by (metis append_assoc append_take_drop_id)
    then show ?thesis
      unfolding sublist_def by blast
  next
    case 2
    have "drop (length a + length m) (a @ m @ b) = b"
      by simp
    moreover have "drop (length a + length m) (u @ t @ v)
                     = drop (length a + length m) u @ t @ v"
      using 2 by simp
    ultimately have "b = drop (length a + length m) u @ t @ v"
      using eq by simp
    then show ?thesis
      unfolding sublist_def by blast
  next
    case 3
    define j where "j = max (length u) (length a)"
    have j1: "length u \<le> j" "j < length u + length t"
      using 3 assms(3) by (auto simp: j_def)
    have j2: "length a \<le> j" "j < length a + length m"
      using 3 assms(4) by (auto simp: j_def)
    have ja: "j - length a < length m"
      using j2 by linarith
    have ju: "j - length u < length t"
      using j1 by linarith
    have "(a @ m @ b) ! j = m ! (j - length a)"
      using j2 ja by (simp add: nth_append)
    moreover have "(u @ t @ v) ! j = t ! (j - length u)"
      using j1 ju by (simp add: nth_append)
    ultimately have "m ! (j - length a) = t ! (j - length u)"
      using eq by simp
    moreover have "m ! (j - length a) \<in> set m"
      using ja by simp
    moreover have "t ! (j - length u) \<in> set t"
      using ju by simp
    ultimately show ?thesis
      using assms(2) by auto
  qed
qed

lemma sublist_in_piece:
  "set t \<inter> set sep = {} \<Longrightarrow> t \<noteq> [] \<Longrightarrow> sep \<noteq> [] \<Longrightarrow> sublist t (rev acc @ s) \<Longrightarrow>
   \<exists>piece \<in> set (split_on_acc sep acc s). sublist t piece"
proof (induction sep acc s rule: split_on_acc.induct)
  case (1 sep acc)
  then show ?case by simp
next
  case (2 sep acc c cs)
  show ?case
  proof (cases "starts_with (c # cs) sep")
    case True
    then have "prefix sep (c # cs)"
      by (simp add: starts_with_prefix)
    then obtain rest where rest: "c # cs = sep @ rest"
      by (auto simp: prefix_def)
    with "2.prems"(3) have d: "drop (length sep - 1) cs = rest"
      by (cases sep) auto
    from "2.prems"(4) rest have "sublist t (rev acc @ sep @ rest)"
      by simp
    then have "sublist t (rev acc) \<or> sublist t rest"
      using "2.prems"(1,2,3) by (rule sublist_around)
    then show ?thesis
    proof
      assume "sublist t (rev acc)"
      with True show ?thesis by simp
    next
      assume "sublist t rest"
      then have "sublist t (rev [] @ drop (length sep - 1) cs)"
        using d by simp
      with "2.IH"(1) [OF True "2.prems"(1,2,3)] True show ?thesis
        by auto
    qed
  next
    case False
    from "2.prems"(4) have "sublist t (rev (c # acc) @ cs)"
      by simp
    with "2.IH"(2) [OF False "2.prems"(1,2,3)] False show ?thesis
      by auto
  qed
qed

lemma inject_keeps:
  assumes "js_includes content t" "set t \<inter> set ''</p>'' = {}" "t \<noteq> []"
  shows "js_includes (inject_paragraph k paragraph content) t"
proof -
  from assms(1) have "sublist t (rev [] @ content)"
    by (simp add: js_includes_sublist)
  with sublist_in_piece [OF assms(2,3), of "[]" content]
  obtain piece where piece: "piece \<in> set (split_on ''</p>'' content)" "sublist t piece"
    by (auto simp: split_on_def)
  have parts: "set (split_on ''</p>'' content)
                = set (take k (split_on ''</p>'' content)) \<union> set (drop k (split_on ''</p>'' content))"
    by (metis append_take_drop_id set_append)
  let ?ps = "split_on ''</p>'' content"
  show ?thesis
  proof (cases "length ?ps > k")
    case True
    from piece(1) parts have "piece \<in> set (take k ?ps @ [paragraph] @ drop k ?ps)"
      by auto
    then have "sublist piece (join ''</p>'' (take k ?ps @ [paragraph] @ drop k ?ps))"
      by (rule sublist_join)
    with piece(2) have "sublist t (join ''</p>'' (take k ?ps @ [paragraph] @ drop k ?ps))"
      using sublist_order.order.trans by blast
    with True show ?thesis
      by (simp add: inject_paragraph_def js_includes_sublist Let_def)
  next
    case False
    from assms(1) have "sublist t (content @ paragraph)"
      by (metis js_includes_sublist sublist_append)
    with False show ?thesis
      by (simp add: inject_paragraph_def js_includes_sublist Let_def)
  qed
qed

lemma inject_adds:
  assumes "js_includes paragraph t"
  shows "js_includes (inject_paragraph k paragraph content) t"
proof -
  let ?ps = "split_on ''</p>'' content"
  show ?thesis
  proof (cases "length ?ps > k")
    case True
    have "sublist paragraph (join ''</p>'' (take k ?ps @ [paragraph] @ drop k ?ps))"
      by (rule sublist_join) simp
    with assms have "sublist t (join ''</p>'' (take k ?ps @ [paragraph] @ drop k ?ps))"
      unfolding js_includes_sublist using sublist_order.order.trans by blast
    with True show ?thesis
      by (simp add: inject_paragraph_def js_includes_sublist Let_def)
  next
    case False
    from assms have "sublist t (content @ paragraph)"
      unfolding js_includes_sublist by (rule sublist_prepend)
    with False show ?thesis
      by (simp add: inject_paragraph_def js_includes_sublist Let_def)
  qed
qed

lemma get_set_prop: "get_prop (set_prop obj k v) k' = (if k' = k then v else get_prop obj k')"
  by (induction obj) (auto simp: get_prop_def)

lemma ensure_placeholder_string:
  assumes "body \<noteq> []" "token \<noteq> []"
  shows "\<exists>s. ensure_placeholder k token (JStr body) = Inr (JStr s) \<and> s \<noteq> [] \<and> js_includes s token
           \<and> (\<forall>t. js_includes body t \<and> set t \<inter> set ''</p>'' = {} \<and> t \<noteq> [] \<longrightarrow> js_includes s t)"
proof (cases "js_includes body token")
  case True
  with assms show ?thesis
    by (simp add: ensure_placeholder_def)
next
  case False
  let ?s = "inject_paragraph k (''<p>'' @ token @ ''</p>'') body"
  have "js_includes (''<p>'' @ token @ ''</p>'') token"
    unfolding js_includes_sublist by (rule sublist_appendI)
  then have inc: "js_includes ?s token"
    by (rule inject_adds)
  with assms(2) have "?s \<noteq> []"
    by (auto simp: js_includes_sublist)
  moreover have "\<forall>t. js_includes body t \<and> set t \<inter> set ''</p>'' = {} \<and> t \<noteq> [] \<longrightarrow> js_includes ?s t"
    using inject_keeps by blast
  ultimately show ?thesis
    using False assms(1) inc by (simp add: ensure_placeholder_def)
qed

lemma normalize_critical_keeps:
  assumes "get_prop parsedJson ''content'' = JStr body" "body \<noteq> []"
  shows "get_prop (normalize_critical parsedJson itemTitle) ''content'' = JStr body"
    and "get_prop (normalize_critical parsedJson itemTitle) ''imageDetails''
           = get_prop parsedJson ''imageDetails''"
  using assms by (simp_all add: normalize_critical_def Let_def get_set_prop)

lemma set_other_keeps_content:
  "k \<noteq> ''content'' \<Longrightarrow>
   get_prop (if b then set_prop n k v else n) ''content'' = get_prop n ''content''"
  by (simp add: get_set_prop)

lemma set_keywords_keeps_content:
  "get_prop (case x of JArr xs \<Rightarrow> n | _ \<Rightarrow> set_prop n ''semanticKeywords'' v) ''content''
     = get_prop n ''content''"
  by (cases x) (simp_all add: get_set_prop)

lemma normalize_rest_content:
  "get_prop (normalize_rest n itemTitle) ''content'' = get_prop n ''content''"
proof -
  have k: "''metaDescription'' \<noteq> ''content''" "''primaryKeyword'' \<noteq> ''content''"
    "''strategy'' \<noteq> ''content''" "''jsonLdSchema'' \<noteq> ''content''"
    "''socialMediaCopy'' \<noteq> ''content''"
    by simp_all
  show ?thesis
    unfolding normalize_rest_def Let_def
    by (simp only: set_other_keeps_content [OF k(1)] set_other_keeps_content [OF k(2)]
        set_other_keeps_content [OF k(3)] set_other_keeps_content [OF k(4)]
        set_other_keeps_content [OF k(5)] set_keywords_keeps_content)
qed

lemma normalize_images_injects:
  assumes "get_prop n ''content'' = JStr body" "body \<noteq> []"
    and "\<not> nonempty_array (get_prop n ''imageDetails'')"
  shows "\<exists>n' s. normalize_images n itemTitle = Inr n' \<and> get_prop n' ''content'' = JStr s
           \<and> js_includes s ''[IMAGE_1_PLACEHOLDER]'' \<and> js_includes s ''[IMAGE_2_PLACEHOLDER]''"
proof -
  from ensure_placeholder_string [OF assms(2), of "''[IMAGE_1_PLACEHOLDER]''" 2]
  obtain s1 where s1: "ensure_placeholder 2 ''[IMAGE_1_PLACEHOLDER]'' (JStr body) = Inr (JStr s1)"
    "s1 \<noteq> []" "js_includes s1 ''[IMAGE_1_PLACEHOLDER]''"
    by auto
  from ensure_placeholder_string [OF s1(2), of "''[IMAGE_2_PLACEHOLDER]''" 5]
  obtain s2 where s2: "ensure_placeholder 5 ''[IMAGE_2_PLACEHOLDER]'' (JStr s1) = Inr (JStr s2)"
    "js_includes s2 ''[IMAGE_2_PLACEHOLDER]''"
    "\<forall>t. js_includes s1 t \<and> set t \<inter> set ''</p>'' = {} \<and> t \<noteq> [] \<longrightarrow> js_includes s2 t"
    by auto
  have "set ''[IMAGE_1_PLACEHOLDER]'' \<inter> set ''</p>'' = {}"
    by simp
  with s1(3) s2(3) have keep: "js_includes s2 ''[IMAGE_1_PLACEHOLDER]''"
    by auto
  let ?slugBase = "if truthy (get_prop n ''slug'') then get_prop n ''slug''
                   else JStr (slug_of_title itemTitle)"
  let ?n1 = "set_prop n ''imageDetails'' (default_imageDetails (get_prop n ''title'') ?slugBase)"
  have c: "get_prop ?n1 ''content'' = JStr body"
    using assms(1) by (simp add: get_set_prop)
  have "normalize_images n itemTitle = Inr (set_prop ?n1 ''content'' (JStr s2))"
  proof (cases "get_prop n ''imageDetails''")
    case (JArr xs)
    with assms(3) have "xs = []"
      by (cases xs) (simp_all add: nonempty_array_def)
    with JArr c s1(1) s2(1) show ?thesis
      by (simp add: normalize_images_def Let_def)
  qed (use c s1(1) s2(1) in \<open>simp_all add: normalize_images_def Let_def\<close>)
  moreover have "get_prop (set_prop ?n1 ''content'' (JStr s2)) ''content'' = JStr s2"
    by (simp add: get_set_prop)
  ultimately show ?thesis
    using keep s2(2) by blast
qed

lemma normalize_injects:
  assumes "get_prop parsedJson ''content'' = JStr body" "body \<noteq> []"
    and "\<not> nonempty_array (get_prop parsedJson ''imageDetails'')"
  shows "\<exists>s. result_prop (normalizeGeneratedContent parsedJson itemTitle) ''content'' = JStr s
           \<and> js_includes s ''[IMAGE_1_PLACEHOLDER]'' \<and> js_includes s ''[IMAGE_2_PLACEHOLDER]''"
proof -
  let ?n = "normalize_critical parsedJson itemTitle"
  have "\<not> nonempty_array (get_prop ?n ''imageDetails'')"
    using assms by (simp add: normalize_critical_keeps)
  with normalize_images_injects [OF normalize_critical_keeps(1) [OF assms(1,2)] assms(2), of itemTitle]
  obtain n' s where "normalize_images ?n itemTitle = Inr n'" "get_prop n' ''content'' = JStr s"
    "js_includes s ''[IMAGE_1_PLACEHOLDER]''" "js_includes s ''[IMAGE_2_PLACEHOLDER]''"
    by blast
  then show ?thesis
    by (auto simp: normalizeGeneratedContent_def result_prop_def normalize_rest_content)
qed

lemma normalize_empty_object:
  "result_prop (normalizeGeneratedContent [] ''My Topic'') ''title'' = JStr ''My Topic''
   \<and> result_prop (normalizeGeneratedContent [] ''My Topic'') ''slug'' = JStr ''my-topic''
   \<and> result_prop (normalizeGeneratedContent [] ''My Topic'') ''content'' = JStr []
   \<and> array_length (result_prop (normalizeGeneratedContent [] ''My Topic'') ''imageDetails'') = Some 2
   \<and> prop_of (array_item (result_prop (normalizeGeneratedContent [] ''My Topic'') ''imageDetails'') 0)
         ''placeholder'' = JStr ''[IMAGE_1_PLACEHOLDER]''
   \<and> prop_of (array_item (result_prop (normalizeGeneratedContent [] ''My Topic'') ''imageDetails'') 1)
         ''placeholder'' = JStr ''[IMAGE_2_PLACEHOLDER]''"
  by code_simp

lemma one_paragraph_payload:
  "get_prop one_paragraph ''content'' = JStr ''<p>a</p>''"
  "\<not> nonempty_array (get_prop one_paragraph ''imageDetails'')"
  by code_simp+

lemma one_paragraph_normalized:
  "result_prop (normalizeGeneratedContent one_paragraph ''My Topic'') ''content''
     = JStr ''<p>a</p><p>[IMAGE_1_PLACEHOLDER]</p><p>[IMAGE_2_PLACEHOLDER]</p>''"
  by code_simp

text \<open>
  Claim C1, amended. For the empty object and the fallback title \<^verbatim>\<open>My Topic\<close> the
  normalizer returns a record whose title is \<^verbatim>\<open>My Topic\<close>, whose slug is \<^verbatim>\<open>my-topic\<close>, whose
  content is the empty string and whose image details are exactly two entries, with the
  placeholders \<^verbatim>\<open>[IMAGE_1_PLACEHOLDER]\<close> and \<^verbatim>\<open>[IMAGE_2_PLACEHOLDER]\<close>. The two tokens are
  in the body that is returned whenever the payload has a body that is a non-empty string
  and its image details are not a non-empty array.
\<close>

theorem C1_normalize_empty_object:
  "result_prop (normalizeGeneratedContent [] ''My Topic'') ''title'' = JStr ''My Topic''
   \<and> result_prop (normalizeGeneratedContent [] ''My Topic'') ''slug'' = JStr ''my-topic''
   \<and> result_prop (normalizeGeneratedContent [] ''My Topic'') ''content'' = JStr []
   \<and> array_length (result_prop (normalizeGeneratedContent [] ''My Topic'') ''imageDetails'') = Some 2
   \<and> prop_of (array_item (result_prop (normalizeGeneratedContent [] ''My Topic'') ''imageDetails'') 0)
         ''placeholder'' = JStr ''[IMAGE_1_PLACEHOLDER]''
   \<and> prop_of (array_item (result_prop (normalizeGeneratedContent [] ''My Topic'') ''imageDetails'') 1)
         ''placeholder'' = JStr ''[IMAGE_2_PLACEHOLDER]''
   \<and> (get_prop parsedJson ''content'' = JStr body \<and> body \<noteq> []
        \<and> \<not> nonempty_array (get_prop parsedJson ''imageDetails'')
      \<longrightarrow> (\<exists>s. result_prop (normalizeGeneratedContent parsedJson itemTitle) ''content'' = JStr s
             \<and> js_includes s ''[IMAGE_1_PLACEHOLDER]'' \<and> js_includes s ''[IMAGE_2_PLACEHOLDER]''))"
  using normalize_empty_object normalize_injects [of parsedJson body itemTitle]
  by blast

theorem C1_normalize_empty_object_witness:
  "get_prop one_paragraph ''content'' = JStr ''<p>a</p>''
   \<and> ''<p>a</p>'' \<noteq> []
   \<and> \<not> nonempty_array (get_prop one_paragraph ''imageDetails'')
   \<and> (\<exists>s. result_prop (normalizeGeneratedContent one_paragraph ''My Topic'') ''content'' = JStr s
          \<and> js_includes s ''[IMAGE_1_PLACEHOLDER]'' \<and> js_includes s ''[IMAGE_2_PLACEHOLDER]'')
   \<and> result_prop (normalizeGeneratedContent one_paragraph ''My Topic'') ''content''
       = JStr ''<p>a</p><p>[IMAGE_1_PLACEHOLDER]</p><p>[IMAGE_2_PLACEHOLDER]</p>''"
  using C1_normalize_empty_object [of one_paragraph "''<p>a</p>''" "''My Topic''"]
        one_paragraph_payload one_paragraph_normalized
  by simp

section \<open>Properties of the JSON extractor\<close>












end
